theory Spec2Isabelle
  imports Complex_Main
begin

section \<open>Data model (data_structures.py)\<close>

text \<open>
  Python floats are modelled as reals, numpy vectors as lists of reals. An exception is a
  value of type \<open>error\<close>; a method that mutates its object returns the object after the
  call together with the exception it raised, if any, so that a partial update stays
  visible. numpy does not raise on a division by zero: it returns \<open>nan\<close> or \<open>inf\<close>
  entries. The model reports that as the error \<open>FloatingPointError\<close>, so that such a
  result cannot pass for a number.
\<close>

datatype error = ValueError | KeyError | IndexError | AttributeError | FloatingPointError

record Node =
  name :: string
  position :: "real list"

definition Node_init :: "string \<Rightarrow> real list \<Rightarrow> error + Node" where
  "Node_init nm pos =
     (if length pos \<noteq> 2 \<and> length pos \<noteq> 3 then Inl ValueError
      else Inr \<lparr>name = nm, position = pos\<rparr>)"

datatype ConnectionType = STRING | BAR

text \<open>
  A Connection holds references to Node objects that it shares with the Tensegrity. The
  nodes live in one list (the Tensegrity's \<open>nodes\<close>); a reference is an index into it.
  \<open>force\<close> is \<open>None\<close> until the first \<open>update_force\<close>. The snapshot
  \<open>nodes_original\<close> is never read again and is left out.
\<close>

record Connection =
  c_nodes :: "nat list"
  connection_type :: ConnectionType
  stiffness :: real
  initial_length :: real
  force :: "real option"
  c_name :: "string option"

text \<open>
  A linked pair is a two-element Python set of node names (yaml_parser.py builds
  \<open>{a, b}\<close>). The pair \<open>(a, b)\<close> records the order in which the set unpacks in
  \<open>for node1, node2 in linked_nodes\<close>; membership \<open>{n1, n2} in linked_nodes\<close> compares
  sets and so ignores that order.
\<close>

type_synonym linked_pair = "string \<times> string"

definition in_linked :: "string \<Rightarrow> string \<Rightarrow> linked_pair list \<Rightarrow> bool" where
  "in_linked n1 n2 linked =
     list_ex (\<lambda>(a, b). (a = n1 \<and> b = n2) \<or> (a = n2 \<and> b = n1)) linked"

text \<open>numpy's \<open>a - b\<close> on one-dimensional arrays, with its broadcasting of a length-1 operand.\<close>

definition vsub :: "real list \<Rightarrow> real list \<Rightarrow> error + real list" where
  "vsub a b =
     (if length a = length b then Inr (map2 (-) a b)
      else if length a = 1 then Inr (map (\<lambda>y. hd a - y) b)
      else if length b = 1 then Inr (map (\<lambda>x. x - hd b) a)
      else Inl ValueError)"

text \<open>\<open>np.linalg.norm\<close> of a vector: the 2-norm.\<close>

definition linalg_norm :: "real list \<Rightarrow> real" where
  "linalg_norm v = sqrt (sum_list (map (\<lambda>x. x\<^sup>2) v))"

text \<open>
  \<open>Connection.current_length\<close>: the loop over \<open>range(len(self.nodes) - 1)\<close>, on the
  dereferenced chain, with the running \<open>length\<close> as accumulator.
\<close>

fun current_length_loop :: "Node list \<Rightarrow> linked_pair list \<Rightarrow> real \<Rightarrow> error + real" where
  "current_length_loop (node1 # node2 # rest) linked len =
     (if in_linked (name node1) (name node2) linked
      then current_length_loop (node2 # rest) linked len
      else (case vsub (position node1) (position node2) of
              Inl e \<Rightarrow> Inl e
            | Inr d \<Rightarrow> current_length_loop (node2 # rest) linked (len + linalg_norm d)))"
| "current_length_loop chain linked len = Inr len"

definition deref :: "Node list \<Rightarrow> Connection \<Rightarrow> Node list" where
  "deref store c = map (\<lambda>r. store ! r) (c_nodes c)"

definition current_length :: "Node list \<Rightarrow> Connection \<Rightarrow> linked_pair list option \<Rightarrow> error + real" where
  "current_length store c linked_nodes =
     current_length_loop (deref store c)
       (case linked_nodes of None \<Rightarrow> [] | Some l \<Rightarrow> l) 0"

definition update_force :: "Connection \<Rightarrow> real \<Rightarrow> Connection" where
  "update_force c cur_length =
     (let force0 = stiffness c * (cur_length - initial_length c);
          force1 = (if connection_type c = STRING then max 0 force0 else force0)
      in c\<lparr>force := Some force1\<rparr>)"

text \<open>
  \<open>Connection.__init__\<close>: without an \<open>initial_length\<close> the rest length is the current
  length of the chain. The connection type is a value of the enum by its type, so the
  constructor's ValueError for another kind of argument has no counterpart here.
\<close>

definition Connection_init ::
  "Node list \<Rightarrow> nat list \<Rightarrow> ConnectionType \<Rightarrow> real \<Rightarrow> real option \<Rightarrow> string option \<Rightarrow>
   error + Connection" where
  "Connection_init store ns ty k l0 nm =
     (let c = \<lparr>c_nodes = ns, connection_type = ty, stiffness = k, initial_length = 0,
                force = None, c_name = nm\<rparr>
      in case l0 of
           Some l \<Rightarrow> Inr (c\<lparr>initial_length := l\<rparr>)
         | None \<Rightarrow> (case current_length store c None of
                      Inl e \<Rightarrow> Inl e
                    | Inr l \<Rightarrow> Inr (c\<lparr>initial_length := l\<rparr>)))"

text \<open>
  \<open>Surface.shape\<close> is the dict \<open>{"surface_type": ..., "properties": ...}\<close>; of the
  properties only the radius of a cylinder is read, and it is taken to be present.
\<close>

record Surface =
  surface_type :: string
  radius :: real
  linked_nodes :: "linked_pair list"

text \<open>The \<open>dim\<close> attribute of a Tensegrity: an int, or the float 2.5.\<close>

datatype dim_value = IntDim nat | Dim2_5

text \<open>
  \<open>pins\<close> is a dict, kept as an association list in insertion order. \<open>controls\<close> are
  references to Connection objects of \<open>connections\<close>: indices into that list.
\<close>

record Tensegrity =
  nodes :: "Node list"
  connections :: "Connection list"
  pins :: "(string \<times> bool list) list"
  controls :: "nat list"
  surface :: "Surface option"
  control_starting_lengths :: "real list"
  t_dim :: dim_value

fun update_forces_loop ::
  "Node list \<Rightarrow> linked_pair list option \<Rightarrow> Connection list \<Rightarrow> Connection list \<times> error option" where
  "update_forces_loop store lk [] = ([], None)"
| "update_forces_loop store lk (c # cs) =
     (case current_length store c lk of
        Inl e \<Rightarrow> (c # cs, Some e)
      | Inr l \<Rightarrow> (case update_forces_loop store lk cs of
                    (cs', r) \<Rightarrow> (update_force c l # cs', r)))"

definition update_forces :: "Tensegrity \<Rightarrow> Tensegrity \<times> error option" where
  "update_forces t =
     (case update_forces_loop (nodes t) (map_option linked_nodes (surface t)) (connections t) of
        (cs, r) \<Rightarrow> (t\<lparr>connections := cs\<rparr>, r))"

definition infer_dim :: "Node list \<Rightarrow> Surface option \<Rightarrow> dim_value option \<Rightarrow> dim_value" where
  "infer_dim ns surf d =
     (case d of
        Some v \<Rightarrow> v
      | None \<Rightarrow> (if surf \<noteq> None then Dim2_5
                 else if list_ex (\<lambda>n. length (position n) = 2) ns then IntDim 2
                 else IntDim 3))"

text \<open>
  \<open>Tensegrity.__init__\<close>: the snapshot of the controls' rest lengths is taken before
  \<open>update_forces\<close> runs; an exception of \<open>update_forces\<close> leaves no object. \<open>dim\<close> is
  set last in the source, and \<open>update_forces\<close> does not read it.
\<close>

definition Tensegrity_init ::
  "Node list \<Rightarrow> Connection list \<Rightarrow> (string \<times> bool list) list option \<Rightarrow> nat list option \<Rightarrow>
   Surface option \<Rightarrow> dim_value option \<Rightarrow> error + Tensegrity" where
  "Tensegrity_init ns cs ps ctrls surf d =
     (let ctrls' = (case ctrls of None \<Rightarrow> [] | Some l \<Rightarrow> l);
          t = \<lparr>nodes = ns, connections = cs,
               pins = (case ps of None \<Rightarrow> [] | Some l \<Rightarrow> l),
               controls = ctrls', surface = surf,
               control_starting_lengths = map (\<lambda>r. initial_length (cs ! r)) ctrls',
               t_dim = infer_dim ns surf d\<rparr>
      in case update_forces t of
           (t', Some e) \<Rightarrow> Inl e
         | (t', None) \<Rightarrow> Inr t')"

text \<open>
  \<open>change_control_lengths\<close>: the loop \<open>self.controls[i].initial_length += delta_length\<close>
  over \<open>enumerate(delta_lengths)\<close>, run after the count check.
\<close>

fun change_loop :: "Connection list \<Rightarrow> nat list \<Rightarrow> real list \<Rightarrow> Connection list" where
  "change_loop cs (r # rs) (d # ds) =
     change_loop (cs[r := (cs ! r)\<lparr>initial_length := initial_length (cs ! r) + d\<rparr>]) rs ds"
| "change_loop cs rs ds = cs"

definition change_control_lengths :: "Tensegrity \<Rightarrow> real list \<Rightarrow> Tensegrity \<times> error option" where
  "change_control_lengths t delta_lengths =
     (if length delta_lengths \<noteq> length (controls t) then (t, Some ValueError)
      else (t\<lparr>connections := change_loop (connections t) (controls t) delta_lengths\<rparr>, None))"

text \<open>
  \<open>reset_control_lengths\<close>: \<open>control.initial_length = self.control_starting_lengths[i]\<close>
  over \<open>enumerate(self.controls)\<close>; the list index raises when the snapshot is too short.
\<close>

fun reset_loop :: "Connection list \<Rightarrow> real list \<Rightarrow> nat \<Rightarrow> nat list \<Rightarrow> Connection list \<times> error option" where
  "reset_loop cs starts i [] = (cs, None)"
| "reset_loop cs starts i (r # rs) =
     (if i < length starts
      then reset_loop (cs[r := (cs ! r)\<lparr>initial_length := starts ! i\<rparr>]) starts (Suc i) rs
      else (cs, Some IndexError))"

definition reset_control_lengths :: "Tensegrity \<Rightarrow> Tensegrity \<times> error option" where
  "reset_control_lengths t =
     (case reset_loop (connections t) (control_starting_lengths t) 0 (controls t) of
        (cs, r) \<Rightarrow> (t\<lparr>connections := cs\<rparr>, r))"

section \<open>The equilibrium solver (tensegrity_solver.py)\<close>

text \<open>
  \<open>node_indices\<close> is the dict \<open>{node.name: i for i, node in enumerate(nodes)}\<close>: of two
  nodes with one name the later one wins.
\<close>

definition build_node_indices :: "Node list \<Rightarrow> (string \<rightharpoonup> nat)" where
  "build_node_indices ns = map_of (rev (zip (map name ns) [0..<length ns]))"

record TensegritySolver =
  tensegrity :: Tensegrity
  sdim :: nat
  node_indices :: "string \<rightharpoonup> nat"
  forces :: "real list"

definition TensegritySolver_init :: "Tensegrity \<Rightarrow> TensegritySolver" where
  "TensegritySolver_init t =
     (let d = (case t_dim t of Dim2_5 \<Rightarrow> 2 | IntDim n \<Rightarrow> n)
      in \<lparr>tensegrity = t, sdim = d, node_indices = build_node_indices (nodes t),
          forces = replicate (d * length (nodes t)) 0\<rparr>)"

text \<open>
  \<open>arr[a : a + d] = v\<close> and \<open>arr[a : a + d] += v\<close> on a one-dimensional array. The slice is
  clipped to the array; \<open>v\<close> must have the length of the clipped slice or length 1
  (numpy broadcasting), and the statement raises ValueError otherwise.
\<close>

definition slice_assign :: "real list \<Rightarrow> nat \<Rightarrow> nat \<Rightarrow> real list \<Rightarrow> error + real list" where
  "slice_assign arr a d v =
     (let m = length (take d (drop a arr))
      in if length v = m then Inr (take a arr @ v @ drop (a + m) arr)
         else if length v = 1 then Inr (take a arr @ replicate m (hd v) @ drop (a + m) arr)
         else Inl ValueError)"

definition slice_add :: "real list \<Rightarrow> nat \<Rightarrow> nat \<Rightarrow> real list \<Rightarrow> error + real list" where
  "slice_add arr a d v =
     (let sl = take d (drop a arr); m = length sl
      in if length v = m then Inr (take a arr @ map2 (+) sl v @ drop (a + m) arr)
         else if length v = 1 then Inr (take a arr @ map (\<lambda>x. x + hd v) sl @ drop (a + m) arr)
         else Inl ValueError)"

text \<open>\<open>a += b\<close> on whole one-dimensional arrays.\<close>

definition iadd :: "real list \<Rightarrow> real list \<Rightarrow> error + real list" where
  "iadd a b =
     (if length b = length a then Inr (map2 (+) a b)
      else if length b = 1 then Inr (map (\<lambda>x. x + hd b) a)
      else Inl ValueError)"

fun set_forces_loop ::
  "nat \<Rightarrow> (string \<rightharpoonup> nat) \<Rightarrow> real list \<Rightarrow> (string \<times> real list) list \<Rightarrow> real list \<times> error option" where
  "set_forces_loop d idx fs [] = (fs, None)"
| "set_forces_loop d idx fs ((node, frc) # rest) =
     (if length frc \<noteq> d then (fs, Some ValueError)
      else (case idx node of
              None \<Rightarrow> (fs, Some KeyError)
            | Some index \<Rightarrow>
                (case slice_assign fs (index * d) d frc of
                   Inl e \<Rightarrow> (fs, Some e)
                 | Inr fs' \<Rightarrow> set_forces_loop d idx fs' rest)))"

text \<open>The argument of \<open>set_forces\<close> is a dict: an association list in iteration order.\<close>

definition set_forces :: "TensegritySolver \<Rightarrow> (string \<times> real list) list \<Rightarrow> TensegritySolver \<times> error option" where
  "set_forces s fmap =
     (case set_forces_loop (sdim s) (node_indices s)
             (replicate (sdim s * length (nodes (tensegrity s))) 0) fmap of
        (fs, r) \<Rightarrow> (s\<lparr>forces := fs\<rparr>, r))"

text \<open>
  A two-dimensional array with \<open>sdim\<close> columns (the result of \<open>x.reshape(-1, self.dim)\<close>) is
  the list of its entries in row-major order; \<open>N[i]\<close> is the row starting at \<open>i * sdim\<close>.
\<close>

definition reshape :: "nat \<Rightarrow> real list \<Rightarrow> error + real list" where
  "reshape d x = (if d = 0 \<or> length x mod d \<noteq> 0 then Inl ValueError else Inr x)"

definition row :: "nat \<Rightarrow> real list \<Rightarrow> nat \<Rightarrow> error + real list" where
  "row d N i = (if i < length N div d then Inr (take d (drop (i * d) N)) else Inl IndexError)"

text \<open>\<open>np.insert(x, index, value)\<close> with a scalar index, and \<open>np.delete(arr, indices)\<close>.\<close>

definition np_insert :: "real list \<Rightarrow> nat \<Rightarrow> real \<Rightarrow> error + real list" where
  "np_insert x index v =
     (if index \<le> length x then Inr (take index x @ v # drop index x) else Inl IndexError)"

definition np_delete :: "real list \<Rightarrow> nat set \<Rightarrow> error + real list" where
  "np_delete arr D =
     (if \<forall>i\<in>D. i < length arr
      then Inr (map snd (filter (\<lambda>(i, v). i \<notin> D) (enumerate 0 arr)))
      else Inl IndexError)"

text \<open>Assignment \<open>d[k] = v\<close> to a dict kept in insertion order.\<close>

fun dict_set :: "('k \<times> 'v) list \<Rightarrow> 'k \<Rightarrow> 'v \<Rightarrow> ('k \<times> 'v) list" where
  "dict_set [] k v = [(k, v)]"
| "dict_set ((k', v') # kvs) k v =
     (if k' = k then (k, v) # kvs else (k', v') # dict_set kvs k v)"

text \<open>
  The indices of the pinned coordinates, in the order of the comprehension
  \<open>[node_indices[node]*dim + i for node, bools in pins.items() for i in range(dim) if bools[i]]\<close>
  of \<open>_create_initial_guess\<close>; \<open>_objective\<close> adds the same indices to \<open>delete_indices\<close>
  in the same order.
\<close>

fun pinned_axes :: "(string \<rightharpoonup> nat) \<Rightarrow> nat \<Rightarrow> string \<Rightarrow> bool list \<Rightarrow> nat list \<Rightarrow> error + nat list" where
  "pinned_axes idx d node bools [] = Inr []"
| "pinned_axes idx d node bools (i # axes) =
     (if length bools \<le> i then Inl IndexError
      else if bools ! i
      then (case idx node of
              None \<Rightarrow> Inl KeyError
            | Some k \<Rightarrow> (case pinned_axes idx d node bools axes of
                          Inl e \<Rightarrow> Inl e
                        | Inr r \<Rightarrow> Inr ((k * d + i) # r)))
      else pinned_axes idx d node bools axes)"

fun pinned_indices :: "(string \<rightharpoonup> nat) \<Rightarrow> nat \<Rightarrow> (string \<times> bool list) list \<Rightarrow> error + nat list" where
  "pinned_indices idx d [] = Inr []"
| "pinned_indices idx d ((node, bools) # rest) =
     (case pinned_axes idx d node bools [0..<d] of
        Inl e \<Rightarrow> Inl e
      | Inr r \<Rightarrow> (case pinned_indices idx d rest of
                    Inl e \<Rightarrow> Inl e
                  | Inr r' \<Rightarrow> Inr (r @ r')))"

text \<open>
  \<open>np.array([node.position[:dim] for node in nodes]).flatten()\<close>: rows of different lengths
  make \<open>np.array\<close> raise ValueError.
\<close>

definition flatten_positions :: "nat \<Rightarrow> Node list \<Rightarrow> error + real list" where
  "flatten_positions d ns =
     (let rows = map (\<lambda>n. take d (position n)) ns
      in if list_all (\<lambda>r. length r = length (hd rows)) rows then Inr (concat rows)
         else Inl ValueError)"

definition create_initial_guess :: "TensegritySolver \<Rightarrow> error + real list" where
  "create_initial_guess s =
     (case flatten_positions (sdim s) (nodes (tensegrity s)) of
        Inl e \<Rightarrow> Inl e
      | Inr x0 \<Rightarrow> (case pinned_indices (node_indices s) (sdim s) (pins (tensegrity s)) of
                     Inl e \<Rightarrow> Inl e
                   | Inr del \<Rightarrow> np_delete x0 (set del)))"

text \<open>
  \<open>_get_nodes_from_input\<close>: the dict \<open>ins_index\<close> is filled pin by pin, axis by axis, and
  its entries are then inserted one at a time, in the dict's order.
\<close>

fun ins_axes ::
  "Node list \<Rightarrow> nat \<Rightarrow> nat \<Rightarrow> bool list \<Rightarrow> nat list \<Rightarrow> (nat \<times> real) list \<Rightarrow> error + (nat \<times> real) list" where
  "ins_axes ns k index bools [] ins = Inr ins"
| "ins_axes ns k index bools (i # axes) ins =
     (if length bools \<le> i then Inl IndexError
      else if bools ! i
      then (if length ns \<le> k then Inl IndexError
            else if length (position (ns ! k)) \<le> i then Inl IndexError
            else ins_axes ns k index bools axes (dict_set ins (index + i) (position (ns ! k) ! i)))
      else ins_axes ns k index bools axes ins)"

fun ins_pins ::
  "TensegritySolver \<Rightarrow> (string \<times> bool list) list \<Rightarrow> (nat \<times> real) list \<Rightarrow> error + (nat \<times> real) list" where
  "ins_pins s [] ins = Inr ins"
| "ins_pins s ((node, bools) # rest) ins =
     (case node_indices s node of
        None \<Rightarrow> Inl KeyError
      | Some k \<Rightarrow>
          (case ins_axes (nodes (tensegrity s)) k (k * sdim s) bools [0..<sdim s] ins of
             Inl e \<Rightarrow> Inl e
           | Inr ins' \<Rightarrow> ins_pins s rest ins'))"

fun insert_all :: "real list \<Rightarrow> (nat \<times> real) list \<Rightarrow> error + real list" where
  "insert_all x [] = Inr x"
| "insert_all x ((index, v) # rest) =
     (case np_insert x index v of Inl e \<Rightarrow> Inl e | Inr x' \<Rightarrow> insert_all x' rest)"

definition get_nodes_from_input :: "TensegritySolver \<Rightarrow> real list \<Rightarrow> error + real list" where
  "get_nodes_from_input s x =
     (case ins_pins s (pins (tensegrity s)) [] of
        Inl e \<Rightarrow> Inl e
      | Inr ins_index \<Rightarrow> (case insert_all x ins_index of
                           Inl e \<Rightarrow> Inl e
                         | Inr x' \<Rightarrow> reshape (sdim s) x'))"

definition vdiv :: "real list \<Rightarrow> real \<Rightarrow> error + real list" where
  "vdiv v a = (if a = 0 then Inl FloatingPointError else Inr (map (\<lambda>x. x / a) v))"

definition node_distance :: "TensegritySolver \<Rightarrow> string \<Rightarrow> string \<Rightarrow> real list \<Rightarrow> error + real" where
  "node_distance s node1 node2 N =
     (case node_indices s node1 of None \<Rightarrow> Inl KeyError | Some i1 \<Rightarrow>
     (case row (sdim s) N i1 of Inl e \<Rightarrow> Inl e | Inr N1 \<Rightarrow>
     (case node_indices s node2 of None \<Rightarrow> Inl KeyError | Some i2 \<Rightarrow>
     (case row (sdim s) N i2 of Inl e \<Rightarrow> Inl e | Inr N2 \<Rightarrow>
        if (case surface (tensegrity s) of
              None \<Rightarrow> False
            | Some sf \<Rightarrow> in_linked node1 node2 (linked_nodes sf))
        then Inr 0
        else Inr (linalg_norm (map2 (-) N1 N2))))))"

fun connection_length_loop :: "TensegritySolver \<Rightarrow> string list \<Rightarrow> real list \<Rightarrow> real \<Rightarrow> error + real" where
  "connection_length_loop s (n1 # n2 # rest) N len =
     (case node_distance s n1 n2 N of
        Inl e \<Rightarrow> Inl e
      | Inr d \<Rightarrow> connection_length_loop s (n2 # rest) N (len + d))"
| "connection_length_loop s chain N len = Inr len"

text \<open>The names \<open>connection.nodes[i].name\<close> along the chain of a connection.\<close>

definition chain_names :: "TensegritySolver \<Rightarrow> Connection \<Rightarrow> string list" where
  "chain_names s c = map name (deref (nodes (tensegrity s)) c)"

definition connection_length :: "TensegritySolver \<Rightarrow> Connection \<Rightarrow> real list \<Rightarrow> error + real" where
  "connection_length s c N = connection_length_loop s (chain_names s c) N 0"

text \<open>
  \<open>_length_derivative\<close>: one pass of the loop body per chain segment, with \<open>dl\<close> as the
  accumulator; \<open>continue\<close> is the recursive call with \<open>dl\<close> unchanged.
\<close>

fun length_derivative_loop ::
  "TensegritySolver \<Rightarrow> string list \<Rightarrow> real list \<Rightarrow> real list \<Rightarrow> error + real list" where
  "length_derivative_loop s (n1 # n2 # rest) N dl =
     (case node_indices s n1 of None \<Rightarrow> Inl KeyError | Some N1_index \<Rightarrow>
     (case node_indices s n2 of None \<Rightarrow> Inl KeyError | Some N2_index \<Rightarrow>
     (case row (sdim s) N N1_index of Inl e \<Rightarrow> Inl e | Inr N1 \<Rightarrow>
     (case row (sdim s) N N2_index of Inl e \<Rightarrow> Inl e | Inr N2 \<Rightarrow>
     (case node_distance s n1 n2 N of Inl e \<Rightarrow> Inl e | Inr len \<Rightarrow>
        if len = 0 then length_derivative_loop s (n2 # rest) N dl
        else
         (case vdiv (map2 (-) N1 N2) len of Inl e \<Rightarrow> Inl e | Inr g1 \<Rightarrow>
         (case slice_add dl (N1_index * sdim s) (sdim s) g1 of Inl e \<Rightarrow> Inl e | Inr dl1 \<Rightarrow>
         (case vdiv (map2 (-) N2 N1) len of Inl e \<Rightarrow> Inl e | Inr g2 \<Rightarrow>
         (case slice_add dl1 (N2_index * sdim s) (sdim s) g2 of Inl e \<Rightarrow> Inl e | Inr dl2 \<Rightarrow>
            length_derivative_loop s (n2 # rest) N dl2)))))))))"
| "length_derivative_loop s chain N dl = Inr dl"

definition length_derivative :: "TensegritySolver \<Rightarrow> Connection \<Rightarrow> real list \<Rightarrow> error + real list" where
  "length_derivative s c N =
     length_derivative_loop s (chain_names s c) N
       (replicate (sdim s * length (nodes (tensegrity s))) 0)"

definition spring_connection_energy :: "TensegritySolver \<Rightarrow> Connection \<Rightarrow> real list \<Rightarrow> error + real" where
  "spring_connection_energy s c N =
     (case connection_length s c N of
        Inl e \<Rightarrow> Inl e
      | Inr len \<Rightarrow>
          if connection_type c = STRING \<and> len < initial_length c then Inr 0
          else Inr (0.5 * stiffness c * (len - initial_length c)\<^sup>2))"

definition spring_connection_energy_derivative ::
  "TensegritySolver \<Rightarrow> Connection \<Rightarrow> real list \<Rightarrow> error + real list" where
  "spring_connection_energy_derivative s c N =
     (case connection_length s c N of
        Inl e \<Rightarrow> Inl e
      | Inr len \<Rightarrow>
          if connection_type c = STRING \<and> len < initial_length c
          then Inr (replicate (sdim s * length (nodes (tensegrity s))) 0)
          else (case length_derivative s c N of
                  Inl e \<Rightarrow> Inl e
                | Inr dl \<Rightarrow> Inr (map (\<lambda>v. (- stiffness c * (len - initial_length c)) * v) dl)))"

text \<open>
  \<open>_surface_constraints\<close>. Unpacking \<open>node1, node2\<close> from a set that holds one name raises
  ValueError; \<open>N1[1]\<close> raises IndexError on a row with one entry.
\<close>

fun constraints_loop :: "TensegritySolver \<Rightarrow> real \<Rightarrow> linked_pair list \<Rightarrow> real list \<Rightarrow> error + real list" where
  "constraints_loop s r [] N = Inr []"
| "constraints_loop s r ((node1, node2) # rest) N =
     (if node1 = node2 then Inl ValueError
      else
       (case node_indices s node1 of None \<Rightarrow> Inl KeyError | Some i1 \<Rightarrow>
       (case row (sdim s) N i1 of Inl e \<Rightarrow> Inl e | Inr N1 \<Rightarrow>
       (case node_indices s node2 of None \<Rightarrow> Inl KeyError | Some i2 \<Rightarrow>
       (case row (sdim s) N i2 of Inl e \<Rightarrow> Inl e | Inr N2 \<Rightarrow>
          if length N1 \<le> 1 then Inl IndexError
          else (case constraints_loop s r rest N of
                  Inl e \<Rightarrow> Inl e
                | Inr cs \<Rightarrow> Inr ((N1 ! 1 - N2 ! 1) # (\<bar>N1 ! 0 - N2 ! 0\<bar> - 2 * pi * r) # cs)))))))"

definition surface_constraints :: "TensegritySolver \<Rightarrow> real list \<Rightarrow> error + real list" where
  "surface_constraints s x =
     (case get_nodes_from_input s x of
        Inl e \<Rightarrow> Inl e
      | Inr N \<Rightarrow>
          (case surface (tensegrity s) of
             None \<Rightarrow> Inl AttributeError
           | Some sf \<Rightarrow>
               if surface_type sf = ''cylinder''
               then constraints_loop s (radius sf) (linked_nodes sf) N
               else Inr []))"

text \<open>
  The surface part of \<open>_objective\<close>. \<open>couple\<close> is one \<open>if / elif / else\<close> block, for the rows
  \<open>a\<close> of node1 and \<open>b\<close> of node2 on one axis; \<open>link_loop\<close> runs it for x and then for y on
  every linked pair.
\<close>

definition couple :: "real list \<Rightarrow> nat \<Rightarrow> nat \<Rightarrow> nat set \<Rightarrow> error + real list \<times> nat set" where
  "couple vw a b D =
     (if a \<in> D then Inr (vw, insert b D)
      else if b \<in> D then Inr (vw, insert a D)
      else if a < length vw \<and> b < length vw then Inr (vw[a := vw ! a + vw ! b], insert b D)
      else Inl IndexError)"

fun link_loop ::
  "TensegritySolver \<Rightarrow> linked_pair list \<Rightarrow> real list \<Rightarrow> nat set \<Rightarrow> error + real list \<times> nat set" where
  "link_loop s [] vw D = Inr (vw, D)"
| "link_loop s ((node1, node2) # rest) vw D =
     (if node1 = node2 then Inl ValueError
      else
       (case node_indices s node1 of None \<Rightarrow> Inl KeyError | Some i1 \<Rightarrow>
       (case node_indices s node2 of None \<Rightarrow> Inl KeyError | Some i2 \<Rightarrow>
       (case couple vw (i1 * sdim s) (i2 * sdim s) D of Inl e \<Rightarrow> Inl e | Inr (vw1, D1) \<Rightarrow>
       (case couple vw1 (i1 * sdim s + 1) (i2 * sdim s + 1) D1 of Inl e \<Rightarrow> Inl e | Inr (vw2, D2) \<Rightarrow>
          link_loop s rest vw2 D2)))))"

fun virtual_work_loop ::
  "TensegritySolver \<Rightarrow> Connection list \<Rightarrow> real list \<Rightarrow> real list \<Rightarrow> error + real list" where
  "virtual_work_loop s [] N vw = Inr vw"
| "virtual_work_loop s (c # cs) N vw =
     (case spring_connection_energy_derivative s c N of
        Inl e \<Rightarrow> Inl e
      | Inr dv \<Rightarrow> (case iadd vw dv of
                    Inl e \<Rightarrow> Inl e
                  | Inr vw' \<Rightarrow> virtual_work_loop s cs N vw'))"

definition objective :: "TensegritySolver \<Rightarrow> real list \<Rightarrow> error + real list" where
  "objective s x =
     (case get_nodes_from_input s x of Inl e \<Rightarrow> Inl e | Inr N \<Rightarrow>
     (case virtual_work_loop s (connections (tensegrity s)) N
             (replicate (sdim s * length (nodes (tensegrity s))) 0) of Inl e \<Rightarrow> Inl e | Inr vw0 \<Rightarrow>
     (case iadd vw0 (forces s) of Inl e \<Rightarrow> Inl e | Inr vw1 \<Rightarrow>
     (case pinned_indices (node_indices s) (sdim s) (pins (tensegrity s)) of
        Inl e \<Rightarrow> Inl e
      | Inr del \<Rightarrow>
          (case surface (tensegrity s) of
             None \<Rightarrow> np_delete vw1 (set del)
           | Some sf \<Rightarrow>
               (case link_loop s (linked_nodes sf) vw1 (set del) of Inl e \<Rightarrow> Inl e | Inr (vw2, D) \<Rightarrow>
               (case np_delete vw2 D of Inl e \<Rightarrow> Inl e | Inr vw3 \<Rightarrow>
               (case surface_constraints s x of Inl e \<Rightarrow> Inl e | Inr cons \<Rightarrow>
                  Inr (vw3 @ cons)))))))))"

text \<open>
  \<open>solve\<close>. scipy's \<open>root\<close> is the parameter \<open>scipy_root\<close>: given the method, the objective and the start
  vector it returns \<open>(result.success, result.x)\<close>, or the exception that escaped from it.
  \<open>noise k\<close> is the \<open>k\<close>-th sample of \<open>np.random.normal(0, 0.1, len(x0))\<close>.
\<close>

type_synonym root_fn =
  "string \<Rightarrow> (real list \<Rightarrow> error + real list) \<Rightarrow> real list \<Rightarrow> error + bool \<times> real list"

fun assign_positions :: "nat \<Rightarrow> real list \<Rightarrow> nat \<Rightarrow> Node list \<Rightarrow> Node list \<times> error option" where
  "assign_positions d N i [] = ([], None)"
| "assign_positions d N i (n # ns) =
     (case row d N i of
        Inl e \<Rightarrow> (n # ns, Some e)
      | Inr p \<Rightarrow> (case assign_positions d N (Suc i) ns of
                    (ns', r) \<Rightarrow> (n\<lparr>position := p\<rparr> # ns', r)))"

text \<open>The end of \<open>solve\<close>, from \<open>N = self._get_nodes_from_input(result.x)\<close> on.\<close>

definition write_back :: "TensegritySolver \<Rightarrow> real list \<Rightarrow> TensegritySolver \<times> error option" where
  "write_back s x =
     (case get_nodes_from_input s x of
        Inl e \<Rightarrow> (s, Some e)
      | Inr N \<Rightarrow>
          (case assign_positions (sdim s) N 0 (nodes (tensegrity s)) of
             (ns, Some e) \<Rightarrow> (s\<lparr>tensegrity := (tensegrity s)\<lparr>nodes := ns\<rparr>\<rparr>, Some e)
           | (ns, None) \<Rightarrow>
               (case update_forces ((tensegrity s)\<lparr>nodes := ns\<rparr>) of
                  (t, r) \<Rightarrow> (s\<lparr>tensegrity := t\<rparr>, r))))"

definition perturb :: "(nat \<Rightarrow> real) \<Rightarrow> real list \<Rightarrow> real list" where
  "perturb noise x0 = map (\<lambda>(k, v). v + noise k) (enumerate 0 x0)"

definition solve :: "root_fn \<Rightarrow> (nat \<Rightarrow> real) \<Rightarrow> TensegritySolver \<Rightarrow> string \<Rightarrow> TensegritySolver \<times> error option" where
  "solve scipy_root noise s method =
     (case create_initial_guess s of
        Inl e \<Rightarrow> (s, Some e)
      | Inr x0 \<Rightarrow>
          (case scipy_root method (objective s) x0 of
             Inl e \<Rightarrow> (s, Some e)
           | Inr (success, x) \<Rightarrow>
               if \<not> success
               then (case scipy_root method (objective s) (perturb noise x0) of
                       Inl e \<Rightarrow> (s, Some e)
                     | Inr (success', x') \<Rightarrow>
                         if \<not> success' then (s, None) else write_back s x')
               else write_back s x))"

section \<open>Notions of the specification\<close>

text \<open>
  The Euclidean distance of two points, the consecutive pairs (segments) of a chain, and
  what it means for two names to be a registered linked pair, as the specification words
  them. The theorems below compare the code with these.
\<close>

definition euclidean_distance :: "real list \<Rightarrow> real list \<Rightarrow> real" where
  "euclidean_distance p q = sqrt (\<Sum>i<length p. (p ! i - q ! i)\<^sup>2)"

definition segments :: "'a list \<Rightarrow> ('a \<times> 'a) list" where
  "segments chain = zip chain (tl chain)"

definition registered_pair :: "string \<Rightarrow> string \<Rightarrow> linked_pair list \<Rightarrow> bool" where
  "registered_pair n1 n2 linked = (\<exists>(a, b)\<in>set linked. {a, b} = {n1, n2})"

text \<open>The slots of node \<open>k\<close> in a vector with \<open>d\<close> entries per node.\<close>

definition slot :: "nat \<Rightarrow> real list \<Rightarrow> nat \<Rightarrow> real list" where
  "slot d v k = take d (drop (k * d) v)"



text \<open>
  The number of pinned coordinate axes: the pairs of a pinned node and an axis \<open>i\<close> below
  \<open>sdim\<close> whose flag is set. \<open>pinned_rows\<close> are the rows of the virtual-work vector that
  belong to them.
\<close>

definition pinned_axes_count :: "TensegritySolver \<Rightarrow> nat" where
  "pinned_axes_count s =
     (\<Sum>(nm, bools)\<leftarrow>pins (tensegrity s). length (filter (\<lambda>i. bools ! i) [0..<sdim s]))"

definition pinned_rows :: "TensegritySolver \<Rightarrow> nat set" where
  "pinned_rows s =
     (case pinned_indices (node_indices s) (sdim s) (pins (tensegrity s)) of
        Inl e \<Rightarrow> {}
      | Inr del \<Rightarrow> set del)"

text \<open>
  Elimination replayed on the set of removed rows alone. For each linked pair and each of
  the axes x and y, \<open>_objective\<close> removes one row and \<open>_surface_constraints\<close> appends one
  equation. \<open>surplus\<close> counts the steps at which the rows of both nodes were gone
  already (pinned, or removed for an earlier pair), so that no further row is removed.
\<close>

definition removed_row :: "nat set \<Rightarrow> nat \<Rightarrow> nat \<Rightarrow> nat" where
  "removed_row D a b = (if a \<in> D then b else if b \<in> D then a else b)"

fun surplus :: "nat \<Rightarrow> (string \<rightharpoonup> nat) \<Rightarrow> linked_pair list \<Rightarrow> nat set \<Rightarrow> nat" where
  "surplus d idx [] D = 0"
| "surplus d idx ((node1, node2) # rest) D =
     (let a = the (idx node1) * d; b = the (idx node2) * d;
          D1 = insert (removed_row D a b) D;
          D2 = insert (removed_row D1 (a + 1) (b + 1)) D1
      in (if a \<in> D \<and> b \<in> D then 1 else 0)
       + (if a + 1 \<in> D1 \<and> b + 1 \<in> D1 then 1 else 0)
       + surplus d idx rest D2)"


text \<open>
  A session on one solver and its structure: calls to \<open>change_control_lengths\<close>, \<open>solve\<close>
  and \<open>set_forces\<close> in any order. A call that raises leaves the state in which the
  exception found it, and the session goes on from there.
\<close>

datatype call =
  Change_control_lengths "real list"
| Solve root_fn "nat \<Rightarrow> real" string
| Set_forces "(string \<times> real list) list"

fun do_call :: "TensegritySolver \<Rightarrow> call \<Rightarrow> TensegritySolver \<times> error option" where
  "do_call s (Change_control_lengths deltas) =
     (case change_control_lengths (tensegrity s) deltas of
        (t, r) \<Rightarrow> (s\<lparr>tensegrity := t\<rparr>, r))"
| "do_call s (Solve scipy_root noise method) = solve scipy_root noise s method"
| "do_call s (Set_forces fmap) = set_forces s fmap"

definition run_calls :: "TensegritySolver \<Rightarrow> call list \<Rightarrow> TensegritySolver" where
  "run_calls s calls = fold (\<lambda>c s'. fst (do_call s' c)) calls s"

text \<open>What the calls of a session leave alone: the registered controls and their snapshot.\<close>

definition same_controls :: "Tensegrity \<Rightarrow> Tensegrity \<Rightarrow> bool" where
  "same_controls t t' =
     (controls t' = controls t \<and> control_starting_lengths t' = control_starting_lengths t
      \<and> length (connections t') = length (connections t))"

section \<open>Example structures\<close>

text \<open>
  The unit square of tests/test_optimization.py in the plane: nodes A, B, C, D and the
  STRING chain A - B - C.
\<close>

definition ex_nodes :: "Node list" where
  "ex_nodes = [\<lparr>name = ''A'', position = [0, 0]\<rparr>, \<lparr>name = ''B'', position = [1, 0]\<rparr>,
               \<lparr>name = ''C'', position = [1, 1]\<rparr>, \<lparr>name = ''D'', position = [0, 1]\<rparr>]"

definition ex_chain :: Connection where
  "ex_chain = \<lparr>c_nodes = [0, 1, 2], connection_type = STRING, stiffness = 1,
                initial_length = 2, force = None, c_name = Some ''s1''\<rparr>"

text \<open>A STRING whose stiffness is negative; no constructor rejects it.\<close>

definition ex_soft_string :: Connection where
  "ex_soft_string = \<lparr>c_nodes = [0, 1], connection_type = STRING, stiffness = - 1,
                      initial_length = 1, force = None, c_name = None\<rparr>"

text \<open>
  The square with the chain A - B - C and the STRING D - A, the chain being the one
  control: the value \<open>Tensegrity.__init__\<close> returns for it, forces computed.
\<close>

definition ex_string_DA :: Connection where
  "ex_string_DA = \<lparr>c_nodes = [3, 0], connection_type = STRING, stiffness = 1,
                    initial_length = 1, force = None, c_name = None\<rparr>"

definition ex_tensegrity :: Tensegrity where
  "ex_tensegrity =
     \<lparr>nodes = ex_nodes,
      connections = [ex_chain\<lparr>force := Some 0\<rparr>, ex_string_DA\<lparr>force := Some 0\<rparr>],
      pins = [], controls = [0], surface = None, control_starting_lengths = [2],
      t_dim = IntDim 2\<rparr>"

text \<open>A root finder that never converges, and one that accepts its start vector.\<close>

definition failing_root :: root_fn where
  "failing_root method f x0 = Inr (False, x0)"

definition trivial_root :: root_fn where
  "trivial_root method f x0 = Inr (True, x0)"

definition ex_calls :: "call list" where
  "ex_calls = [Change_control_lengths [1 / 2], Solve trivial_root (\<lambda>k. 0) ''lm'',
               Change_control_lengths [1 / 4], Solve failing_root (\<lambda>k. 1) ''lm'']"

text \<open>A solver over the square that already carries forces on A and B.\<close>

definition ex_loaded_solver :: TensegritySolver where
  "ex_loaded_solver = (TensegritySolver_init ex_tensegrity)\<lparr>forces := [5, 5, 7, 7, 0, 0, 0, 0]\<rparr>"

text \<open>
  A strip wrapped on a cylinder of radius 1: nodes A, B, C, the seam pair A, B, a STRING
  B - C of rest length 1/2, and A pinned in x. The second structure pins B in x as well.
\<close>

definition ex_seam_nodes :: "Node list" where
  "ex_seam_nodes = [\<lparr>name = ''A'', position = [0, 0]\<rparr>, \<lparr>name = ''B'', position = [1, 0]\<rparr>,
                    \<lparr>name = ''C'', position = [1, 1]\<rparr>]"

definition ex_seam_string :: Connection where
  "ex_seam_string = \<lparr>c_nodes = [1, 2], connection_type = STRING, stiffness = 1,
                      initial_length = 1 / 2, force = Some (1 / 2), c_name = None\<rparr>"

definition ex_seam_tensegrity :: Tensegrity where
  "ex_seam_tensegrity =
     \<lparr>nodes = ex_seam_nodes,
      connections = [ex_seam_string],
      pins = [(''A'', [True, False])], controls = [],
      surface = Some \<lparr>surface_type = ''cylinder'', radius = 1, linked_nodes = [(''A'', ''B'')]\<rparr>,
      control_starting_lengths = [], t_dim = Dim2_5\<rparr>"



text \<open>
  Two free-standing nodes whose pins are listed B first, A second (the order of the
  \<open>pin\<close> mapping of the structure file), each pinned in x; and the same nodes with B
  pinned in y and A in both axes.
\<close>

definition ex_pin_nodes :: "Node list" where
  "ex_pin_nodes = [\<lparr>name = ''A'', position = [0, 0]\<rparr>, \<lparr>name = ''B'', position = [1, 2]\<rparr>]"

definition ex_pin_solver :: TensegritySolver where
  "ex_pin_solver =
     TensegritySolver_init
       \<lparr>nodes = ex_pin_nodes, connections = [],
        pins = [(''B'', [True, False]), (''A'', [True, False])], controls = [],
        surface = None, control_starting_lengths = [], t_dim = IntDim 2\<rparr>"

definition ex_pin_solver2 :: TensegritySolver where
  "ex_pin_solver2 =
     TensegritySolver_init
       \<lparr>nodes = ex_pin_nodes, connections = [],
        pins = [(''B'', [False, True]), (''A'', [True, True])], controls = [],
        surface = None, control_starting_lengths = [], t_dim = IntDim 2\<rparr>"

section \<open>Connection physics\<close>

lemma in_linked_iff: "in_linked n1 n2 linked = registered_pair n1 n2 linked"
  by (auto simp: in_linked_def registered_pair_def list_ex_iff doubleton_eq_iff)

lemma linalg_norm_diff:
  assumes "length p = length q"
  shows "linalg_norm (map2 (-) p q) = euclidean_distance p q"
proof -
  have "sum_list (map (\<lambda>x. x\<^sup>2) (map2 (-) p q)) = (\<Sum>i<length p. (p ! i - q ! i)\<^sup>2)"
    using assms by (simp add: sum_list_sum_nth atLeast0LessThan)
  then show ?thesis by (simp add: linalg_norm_def euclidean_distance_def)
qed

lemma segments_Cons2 [simp]: "segments (a # b # rest) = (a, b) # segments (b # rest)"
  by (simp add: segments_def)

lemma segments_short [simp]: "segments [] = []" "segments [a] = []"
  by (simp_all add: segments_def)

lemma current_length_loop_sum:
  assumes "\<forall>n\<in>set chain. length (position n) = d"
  shows "current_length_loop chain linked acc =
         Inr (acc + (\<Sum>(a, b)\<leftarrow>segments chain.
                if registered_pair (name a) (name b) linked then 0
                else euclidean_distance (position a) (position b)))"
  using assms
proof (induction chain arbitrary: acc rule: induct_list012)
  case 1
  then show ?case by simp
next
  case (2 x)
  then show ?case by simp
next
  case (3 node1 node2 rest)
  have dims: "length (position node1) = length (position node2)"
    using "3.prems" by simp
  have rest: "\<forall>n\<in>set (node2 # rest). length (position n) = d"
    using "3.prems" by simp
  show ?case
  proof (cases "registered_pair (name node1) (name node2) linked")
    case True
    then show ?thesis
      using "3.IH"(2)[OF rest, of acc] by (simp add: in_linked_iff)
  next
    case False
    then show ?thesis
      using "3.IH"(2)[OF rest, of "acc + euclidean_distance (position node1) (position node2)"] dims
      by (simp add: in_linked_iff vsub_def linalg_norm_diff)
  qed
qed

text \<open>
  C5. For a connection whose nodes all have positions of one dimension,
  \<open>current_length\<close> without linked pairs is the sum of the Euclidean distances of the
  consecutive node pairs of the chain; with linked pairs, a segment whose two endpoint
  names are a registered linked pair contributes 0 and every other segment its Euclidean
  distance.
\<close>

theorem current_length_is_sum:
  assumes "\<forall>n\<in>set (deref store c). length (position n) = d"
  shows "current_length store c None =
           Inr (\<Sum>(a, b)\<leftarrow>segments (deref store c). euclidean_distance (position a) (position b))
       \<and> current_length store c (Some linked) =
           Inr (\<Sum>(a, b)\<leftarrow>segments (deref store c).
                  if registered_pair (name a) (name b) linked then 0
                  else euclidean_distance (position a) (position b))"
  using current_length_loop_sum[OF assms, of "[]" 0] current_length_loop_sum[OF assms, of linked 0]
  by (simp add: current_length_def registered_pair_def)

text \<open>
  On the chain A - B - C of the unit square the length is 2, and 1 when B and C are a
  linked pair.
\<close>

theorem current_length_is_sum_witness:
  "current_length ex_nodes ex_chain None = Inr 2
   \<and> current_length ex_nodes ex_chain (Some [(''C'', ''B'')]) = Inr 1"
proof -
  have dims: "\<forall>n\<in>set (deref ex_nodes ex_chain). length (position n) = 2"
    by (simp add: deref_def ex_nodes_def ex_chain_def)
  show ?thesis
    using current_length_is_sum[OF dims, of "[(''C'', ''B'')]"]
    by (simp add: deref_def ex_nodes_def ex_chain_def euclidean_distance_def registered_pair_def
        numeral_2_eq_2 doubleton_eq_iff)
qed

text \<open>
  C4, as the code has it. \<open>update_force\<close> stores \<open>k * (L - L0)\<close> for a BAR and
  \<open>max 0 (k * (L - L0))\<close> for a STRING and changes no other field. A STRING's force is
  never negative; it is 0 for \<open>L < L0\<close> when the stiffness is not negative.
\<close>

theorem update_force_law:
  "(connection_type c = BAR \<longrightarrow>
      force (update_force c L) = Some (stiffness c * (L - initial_length c)))
   \<and> (connection_type c = STRING \<longrightarrow>
      force (update_force c L) = Some (max 0 (stiffness c * (L - initial_length c)))
      \<and> (\<forall>f. force (update_force c L) = Some f \<longrightarrow> 0 \<le> f)
      \<and> (0 \<le> stiffness c \<and> L < initial_length c \<longrightarrow> force (update_force c L) = Some 0))
   \<and> update_force c L = c\<lparr>force := force (update_force c L)\<rparr>"
  by (auto simp: update_force_def Let_def max_def mult_nonneg_nonpos not_le
      dest: mult_nonneg_nonpos[of "stiffness c" "L - initial_length c"])

theorem update_force_law_witness:
  "force (update_force ex_chain 1) = Some 0
   \<and> force (update_force (ex_chain\<lparr>connection_type := BAR\<rparr>) 1) = Some (- 1)
   \<and> force (update_force ex_chain 3) = Some 1"
  using update_force_law[of ex_chain 1] update_force_law[of "ex_chain\<lparr>connection_type := BAR\<rparr>" 1]
    update_force_law[of ex_chain 3]
  by (simp add: ex_chain_def)

text \<open>
  With stiffness -1, rest length 1 and current length 0 a STRING gets the force 1, not 0:
  the clamp acts on the product, and nothing keeps the stiffness from being negative.
\<close>

theorem string_force_counterexample:
  "connection_type ex_soft_string = STRING \<and> (0::real) < initial_length ex_soft_string
   \<and> force (update_force ex_soft_string 0) = Some 1
   \<and> force (update_force ex_soft_string 0) \<noteq> Some 0"
  by (simp add: ex_soft_string_def update_force_def)

section \<open>Control lengths\<close>

lemma change_loop_spec:
  assumes "length rs = length ds"
  shows "length (change_loop cs rs ds) = length cs
       \<and> (\<forall>j<length cs. change_loop cs rs ds ! j =
            (cs ! j)\<lparr>initial_length := initial_length (cs ! j)
                       + (\<Sum>(r, d)\<leftarrow>zip rs ds. if r = j then d else 0)\<rparr>)"
  using assms
proof (induction rs ds arbitrary: cs rule: list_induct2)
  case Nil
  then show ?case by simp
next
  case (Cons r rs d ds)
  let ?cs1 = "cs[r := (cs ! r)\<lparr>initial_length := initial_length (cs ! r) + d\<rparr>]"
  have IH: "length (change_loop ?cs1 rs ds) = length ?cs1"
    "\<And>j. j < length ?cs1 \<Longrightarrow> change_loop ?cs1 rs ds ! j =
       (?cs1 ! j)\<lparr>initial_length := initial_length (?cs1 ! j)
                   + (\<Sum>(r, d)\<leftarrow>zip rs ds. if r = j then d else 0)\<rparr>"
    using Cons.IH[of ?cs1] by auto
  show ?case
  proof (intro conjI allI impI)
    show "length (change_loop cs (r # rs) (d # ds)) = length cs"
      using IH(1) by simp
  next
    fix j assume j: "j < length cs"
    show "change_loop cs (r # rs) (d # ds) ! j =
        (cs ! j)\<lparr>initial_length := initial_length (cs ! j)
                   + (\<Sum>(r, d)\<leftarrow>zip (r # rs) (d # ds). if r = j then d else 0)\<rparr>"
      using IH(2)[of j] j by (cases "r = j") (simp_all add: add.assoc)
  qed
qed

lemma zip_other_zero:
  assumes "r \<notin> set rs"
  shows "(\<Sum>(r', d')\<leftarrow>zip rs ds. if r' = r then d' else 0) = (0::real)"
  using assms
proof (induction rs arbitrary: ds)
  case Nil
  then show ?case by simp
next
  case (Cons a rs)
  then show ?case by (cases ds) auto
qed

lemma distinct_zip_pick:
  assumes "length rs = length ds" "distinct rs" "i < length rs"
  shows "(\<Sum>(r, d)\<leftarrow>zip rs ds. if r = rs ! i then d else 0) = (ds ! i :: real)"
  using assms
proof (induction rs ds arbitrary: i rule: list_induct2)
  case Nil
  then show ?case by simp
next
  case (Cons r rs d ds)
  show ?case
  proof (cases i)
    case 0
    then show ?thesis using Cons.prems zip_other_zero[of r rs ds] by simp
  next
    case (Suc k)
    then have "rs ! k \<noteq> r" using Cons.prems by auto
    then show ?thesis using Suc Cons by auto
  qed
qed

text \<open>
  C8. \<open>change_control_lengths\<close> raises ValueError exactly when the number of deltas
  differs from the number of registered controls, and then changes nothing. When the
  counts match it raises nothing and changes only rest lengths: connection \<open>j\<close> gains the
  sum of the deltas whose control is \<open>j\<close> (the \<open>i\<close>-th delta goes to the \<open>i\<close>-th control; for
  controls registered once each that is \<open>ds ! i\<close>), and node positions, forces and every
  other field stay as they were, so nothing is re-solved.
\<close>

theorem change_control_lengths_spec:
  "((snd (change_control_lengths t ds) = Some ValueError) = (length ds \<noteq> length (controls t)))
   \<and> (length ds \<noteq> length (controls t) \<longrightarrow> fst (change_control_lengths t ds) = t)
   \<and> (length ds = length (controls t) \<longrightarrow>
        snd (change_control_lengths t ds) = None
        \<and> (\<exists>cs'. fst (change_control_lengths t ds) = t\<lparr>connections := cs'\<rparr>
             \<and> length cs' = length (connections t)
             \<and> (\<forall>j<length (connections t). cs' ! j =
                   (connections t ! j)\<lparr>initial_length := initial_length (connections t ! j)
                      + (\<Sum>(r, d)\<leftarrow>zip (controls t) ds. if r = j then d else 0)\<rparr>)
             \<and> (distinct (controls t) \<longrightarrow>
                  (\<forall>i<length ds. controls t ! i < length (connections t) \<longrightarrow>
                     cs' ! (controls t ! i) =
                       (connections t ! (controls t ! i))\<lparr>initial_length :=
                          initial_length (connections t ! (controls t ! i)) + ds ! i\<rparr>))))"
proof (cases "length ds = length (controls t)")
  case False
  then show ?thesis by (simp add: change_control_lengths_def)
next
  case True
  note spec = change_loop_spec[OF True[symmetric], of "connections t"]
  have pick: "distinct (controls t) \<Longrightarrow> i < length ds \<Longrightarrow>
      (\<Sum>(r, d)\<leftarrow>zip (controls t) ds. if r = controls t ! i then d else 0) = ds ! i" for i
    using distinct_zip_pick[OF True[symmetric], of i] True by simp
  show ?thesis
    using True spec pick by (auto simp: change_control_lengths_def)
qed


lemma update_force_initial_length [simp]:
  "initial_length (update_force c l) = initial_length c"
  by (simp add: update_force_def Let_def)

lemma update_forces_loop_keeps:
  "update_forces_loop store lk cs = (cs', r) \<Longrightarrow>
     length cs' = length cs \<and> map initial_length cs' = map initial_length cs"
proof (induction cs arbitrary: cs' r)
  case Nil
  then show ?case by simp
next
  case (Cons c cs)
  then show ?case
    by (auto split: sum.splits prod.splits)
qed

lemma update_forces_keeps:
  assumes "update_forces t = (t', r)"
  shows "controls t' = controls t \<and> control_starting_lengths t' = control_starting_lengths t
       \<and> length (connections t') = length (connections t)
       \<and> map initial_length (connections t') = map initial_length (connections t)"
proof -
  obtain cs' r' where loop:
    "update_forces_loop (nodes t) (map_option linked_nodes (surface t)) (connections t) = (cs', r')"
    by (cases "update_forces_loop (nodes t) (map_option linked_nodes (surface t)) (connections t)")
  then have "t' = t\<lparr>connections := cs'\<rparr>"
    using assms by (simp add: update_forces_def)
  then show ?thesis using update_forces_loop_keeps[OF loop] by simp
qed

lemma same_controls_refl [simp]: "same_controls t t"
  by (simp add: same_controls_def)

lemma same_controls_trans: "same_controls t t' \<Longrightarrow> same_controls t' t'' \<Longrightarrow> same_controls t t''"
  by (simp add: same_controls_def)

lemma change_loop_length [simp]: "length (change_loop cs rs ds) = length cs"
  by (induction cs rs ds rule: change_loop.induct) simp_all

lemma change_control_lengths_same:
  "same_controls t (fst (change_control_lengths t ds))"
  by (simp add: change_control_lengths_def same_controls_def)

lemma write_back_same:
  "same_controls (tensegrity s) (tensegrity (fst (write_back s x)))"
proof (cases "get_nodes_from_input s x")
  case (Inl e)
  then show ?thesis by (simp add: write_back_def)
next
  case (Inr N)
  obtain ns r where a: "assign_positions (sdim s) N 0 (nodes (tensegrity s)) = (ns, r)"
    by (cases "assign_positions (sdim s) N 0 (nodes (tensegrity s))")
  show ?thesis
  proof (cases r)
    case (Some e)
    then show ?thesis using Inr a by (simp add: write_back_def same_controls_def)
  next
    case None
    obtain t' r' where u: "update_forces ((tensegrity s)\<lparr>nodes := ns\<rparr>) = (t', r')"
      by (cases "update_forces ((tensegrity s)\<lparr>nodes := ns\<rparr>)")
    then show ?thesis
      using Inr a None update_forces_keeps[OF u] by (simp add: write_back_def same_controls_def)
  qed
qed

lemma solve_same:
  "same_controls (tensegrity s) (tensegrity (fst (solve scipy_root noise s m)))"
  using write_back_same[of s]
  by (auto simp: solve_def split: sum.splits prod.splits)

lemma set_forces_same:
  "tensegrity (fst (set_forces s fmap)) = tensegrity s"
  by (simp add: set_forces_def split: prod.splits)

lemma do_call_same:
  "same_controls (tensegrity s) (tensegrity (fst (do_call s c)))"
proof (cases c)
  case (Change_control_lengths ds)
  then show ?thesis
    using change_control_lengths_same[of "tensegrity s" ds]
    by (auto split: prod.splits)
next
  case (Solve rt noise m)
  then show ?thesis using solve_same by simp
next
  case (Set_forces fmap)
  then show ?thesis by (simp add: set_forces_same)
qed

lemma run_calls_same:
  "same_controls (tensegrity s) (tensegrity (run_calls s calls))"
proof (induction calls arbitrary: s)
  case Nil
  then show ?case by (simp add: run_calls_def)
next
  case (Cons c calls)
  have "run_calls s (c # calls) = run_calls (fst (do_call s c)) calls"
    by (simp add: run_calls_def)
  then show ?case
    using same_controls_trans[OF do_call_same[of s c] Cons.IH[of "fst (do_call s c)"]] by simp
qed

lemma reset_loop_spec:
  assumes "i + length rs \<le> length starts"
    and "\<forall>k<length rs. starts ! (i + k) = L (rs ! k)"
    and "\<forall>r\<in>set rs. r < length cs"
  shows "\<exists>cs'. reset_loop cs starts i rs = (cs', None) \<and> length cs' = length cs
           \<and> (\<forall>r\<in>set rs. initial_length (cs' ! r) = L r)
           \<and> (\<forall>j<length cs. j \<notin> set rs \<longrightarrow> cs' ! j = cs ! j)"
  using assms
proof (induction rs arbitrary: cs i)
  case Nil
  then show ?case by simp
next
  case (Cons r rs)
  let ?cs1 = "cs[r := (cs ! r)\<lparr>initial_length := starts ! i\<rparr>]"
  have i: "i < length starts" using Cons.prems(1) by simp
  have head: "starts ! i = L r" using Cons.prems(2) by force
  have tail: "\<forall>k<length rs. starts ! (Suc i + k) = L (rs ! k)"
  proof (intro allI impI)
    fix k assume "k < length rs"
    then show "starts ! (Suc i + k) = L (rs ! k)"
      using Cons.prems(2)[rule_format, of "Suc k"] by simp
  qed
  have "\<exists>cs'. reset_loop ?cs1 starts (Suc i) rs = (cs', None) \<and> length cs' = length ?cs1
           \<and> (\<forall>r\<in>set rs. initial_length (cs' ! r) = L r)
           \<and> (\<forall>j<length ?cs1. j \<notin> set rs \<longrightarrow> cs' ! j = ?cs1 ! j)"
    using Cons.prems(1,3) tail by (intro Cons.IH) auto
  then obtain cs' where cs': "reset_loop ?cs1 starts (Suc i) rs = (cs', None)"
      "length cs' = length cs" "\<forall>r\<in>set rs. initial_length (cs' ! r) = L r"
      "\<forall>j<length cs. j \<notin> set rs \<longrightarrow> cs' ! j = ?cs1 ! j"
    by auto
  have r: "r < length cs" using Cons.prems(3) by simp
  have "initial_length (cs' ! r) = L r"
  proof (cases "r \<in> set rs")
    case True
    then show ?thesis using cs'(3) by simp
  next
    case False
    then show ?thesis using cs'(4) r head by simp
  qed
  moreover have "\<forall>j<length cs. j \<notin> set (r # rs) \<longrightarrow> cs' ! j = cs ! j"
    using cs'(4) by auto
  ultimately show ?case using cs'(1,2,3) i by auto
qed

lemma Tensegrity_init_fields:
  assumes "Tensegrity_init ns cs ps ctrls surf d = Inr t0"
  shows "controls t0 = (case ctrls of None \<Rightarrow> [] | Some l \<Rightarrow> l)
       \<and> control_starting_lengths t0 = map (\<lambda>r. initial_length (cs ! r)) (controls t0)
       \<and> length (connections t0) = length cs
       \<and> map initial_length (connections t0) = map initial_length cs"
proof -
  let ?t = "\<lparr>nodes = ns, connections = cs, pins = (case ps of None \<Rightarrow> [] | Some l \<Rightarrow> l),
             controls = (case ctrls of None \<Rightarrow> [] | Some l \<Rightarrow> l), surface = surf,
             control_starting_lengths =
               map (\<lambda>r. initial_length (cs ! r)) (case ctrls of None \<Rightarrow> [] | Some l \<Rightarrow> l),
             t_dim = infer_dim ns surf d\<rparr>"
  have u: "update_forces ?t = (t0, None)"
    using assms by (auto simp: Tensegrity_init_def Let_def split: prod.splits option.splits)
  show ?thesis using update_forces_keeps[OF u] by simp
qed

text \<open>
  C7. Take a Tensegrity as its constructor returned it and a solver over it. After any
  sequence of \<open>change_control_lengths\<close>, \<open>solve\<close> and \<open>set_forces\<close> calls,
  \<open>reset_control_lengths\<close> raises nothing and gives every control connection the rest
  length it had in the constructor's arguments.
\<close>

theorem reset_restores_initial_lengths:
  assumes init: "Tensegrity_init ns cs ps ctrls surf d = Inr t0"
    and refs: "\<forall>r\<in>set (controls t0). r < length cs"
  shows "\<exists>t'. reset_control_lengths (tensegrity (run_calls (TensegritySolver_init t0) calls))
                 = (t', None)
              \<and> controls t' = controls t0
              \<and> (\<forall>i<length (controls t0).
                    initial_length (connections t' ! (controls t0 ! i))
                      = initial_length (cs ! (controls t0 ! i)))"
proof -
  let ?t = "tensegrity (run_calls (TensegritySolver_init t0) calls)"
  have "same_controls (tensegrity (TensegritySolver_init t0)) ?t"
    by (rule run_calls_same)
  then have same: "controls ?t = controls t0"
      "control_starting_lengths ?t = control_starting_lengths t0"
      "length (connections ?t) = length (connections t0)"
    by (simp_all add: same_controls_def TensegritySolver_init_def Let_def)
  note f = Tensegrity_init_fields[OF init]
  have "\<exists>cs'. reset_loop (connections ?t) (control_starting_lengths t0) 0 (controls t0) = (cs', None)
           \<and> length cs' = length (connections ?t)
           \<and> (\<forall>r\<in>set (controls t0). initial_length (cs' ! r) = initial_length (cs ! r))
           \<and> (\<forall>j<length (connections ?t). j \<notin> set (controls t0) \<longrightarrow> cs' ! j = connections ?t ! j)"
    using f refs same(3) by (intro reset_loop_spec) auto
  then obtain cs' where cs': "reset_loop (connections ?t) (control_starting_lengths t0) 0 (controls t0) = (cs', None)"
      "\<forall>r\<in>set (controls t0). initial_length (cs' ! r) = initial_length (cs ! r)"
    by auto
  have "reset_control_lengths ?t = (?t\<lparr>connections := cs'\<rparr>, None)"
    using cs'(1) same by (simp add: reset_control_lengths_def)
  then show ?thesis using cs'(2) same(1) by auto
qed

text \<open>The example structure is what the constructor returns for the square.\<close>

lemma ex_tensegrity_init:
  "Tensegrity_init ex_nodes [ex_chain, ex_string_DA] None (Some [0]) None None = Inr ex_tensegrity"
  by (simp add: Tensegrity_init_def update_forces_def current_length_def deref_def ex_nodes_def
      ex_chain_def ex_string_DA_def ex_tensegrity_def in_linked_def vsub_def linalg_norm_def
      update_force_def infer_dim_def Let_def)

theorem reset_restores_initial_lengths_witness:
  "\<exists>t'. reset_control_lengths (tensegrity (run_calls (TensegritySolver_init ex_tensegrity) ex_calls))
           = (t', None)
        \<and> controls t' = [0] \<and> initial_length (connections t' ! 0) = 2"
proof -
  have refs: "\<forall>r\<in>set (controls ex_tensegrity). r < length [ex_chain, ex_string_DA]"
    by (simp add: ex_tensegrity_def)
  show ?thesis
    using reset_restores_initial_lengths[OF ex_tensegrity_init refs, of ex_calls]
    by (simp add: ex_tensegrity_def ex_chain_def)
qed

theorem change_control_lengths_spec_witness:
  "snd (change_control_lengths ex_tensegrity []) = Some ValueError
   \<and> fst (change_control_lengths ex_tensegrity []) = ex_tensegrity
   \<and> snd (change_control_lengths ex_tensegrity [1 / 2]) = None
   \<and> initial_length (connections (fst (change_control_lengths ex_tensegrity [1 / 2])) ! 0) = 5 / 2
   \<and> connections (fst (change_control_lengths ex_tensegrity [1 / 2])) ! 1 = connections ex_tensegrity ! 1"
  using change_control_lengths_spec[of ex_tensegrity "[]"]
    change_control_lengths_spec[of ex_tensegrity "[1 / 2]"]
  by (auto simp: ex_tensegrity_def ex_chain_def)

section \<open>The solve protocol\<close>

text \<open>
  C1. When the root finder reports failure on the initial guess and again on the
  perturbed guess, \<open>solve\<close> returns without raising and leaves the whole solver state as
  it was: in particular every node position and every connection force.
\<close>

theorem solve_failure_keeps_state:
  assumes "create_initial_guess s = Inr x0"
    and "scipy_root method (objective s) x0 = Inr (False, x)"
    and "scipy_root method (objective s) (perturb noise x0) = Inr (False, x')"
  shows "solve scipy_root noise s method = (s, None)
       \<and> map position (nodes (tensegrity (fst (solve scipy_root noise s method))))
           = map position (nodes (tensegrity s))
       \<and> map force (connections (tensegrity (fst (solve scipy_root noise s method))))
           = map force (connections (tensegrity s))"
  using assms by (simp add: solve_def)

lemma ex_initial_guess:
  "create_initial_guess (TensegritySolver_init ex_tensegrity) = Inr [0, 0, 1, 0, 1, 1, 0, 1]"
  by (simp add: create_initial_guess_def TensegritySolver_init_def ex_tensegrity_def ex_nodes_def
      flatten_positions_def np_delete_def enumerate_eq_zip)

theorem solve_failure_keeps_state_witness:
  "solve failing_root (\<lambda>k. 1) (TensegritySolver_init ex_tensegrity) ''lm''
     = (TensegritySolver_init ex_tensegrity, None)"
  using solve_failure_keeps_state[OF ex_initial_guess, of failing_root "''lm''" _ "\<lambda>k. 1"]
  by (simp add: failing_root_def)

section \<open>External forces\<close>

lemma build_node_indices_Some:
  assumes "build_node_indices ns a = Some k"
  shows "k < length ns \<and> name (ns ! k) = a"
proof -
  have "(a, k) \<in> set (zip (map name ns) [0..<length ns])"
    using map_of_SomeD[OF assms[unfolded build_node_indices_def]] by simp
  then obtain i where "i < length ns" "map name ns ! i = a" "[0..<length ns] ! i = k"
    by (auto simp: in_set_zip)
  then show ?thesis by simp
qed

lemma slot_bounds:
  fixes j n t d :: nat
  assumes "j < n" "t < d"
  shows "j * d + t < d * n"
proof -
  have "j * d + t < Suc j * d" using assms(2) by simp
  also have "\<dots> \<le> n * d" using assms(1) by (intro mult_le_mono1) simp
  finally show ?thesis by (simp add: mult.commute)
qed

lemma slot_length:
  assumes "length v = d * n" "k < n"
  shows "length (slot d v k) = d"
proof -
  have "Suc k * d \<le> n * d" using assms(2) by (intro mult_le_mono1) simp
  then show ?thesis using assms(1) by (simp add: slot_def mult.commute)
qed

lemma slot_nth:
  assumes "length v = d * n" "k < n" "t < d"
  shows "slot d v k ! t = v ! (k * d + t)"
  using slot_bounds[OF assms(2,3)] assms by (simp add: slot_def)

lemma slice_assign_ok:
  assumes "length v = d * n" "k < n" "length f = d"
  shows "slice_assign v (k * d) d f = Inr (take (k * d) v @ f @ drop (k * d + d) v)"
proof -
  have "length (take d (drop (k * d) v)) = d"
    using slot_length[OF assms(1,2)] by (simp add: slot_def)
  then show ?thesis using assms(3) by (simp add: slice_assign_def Let_def)
qed

lemma assigned_length:
  assumes "length v = d * n" "k < n" "length f = d"
  shows "length (take (k * d) v @ f @ drop (k * d + d) v) = d * n"
proof -
  have "Suc k * d \<le> n * d" using assms(2) by (intro mult_le_mono1) simp
  then show ?thesis using assms by (simp add: mult.commute)
qed

lemma assigned_slot:
  assumes len: "length v = d * n" and k: "k < n" and f: "length f = d" and j: "j < n"
  shows "slot d (take (k * d) v @ f @ drop (k * d + d) v) j = (if j = k then f else slot d v j)"
proof -
  let ?w = "take (k * d) v @ f @ drop (k * d + d) v"
  have lw: "length ?w = d * n" by (rule assigned_length[OF len k f])
  have kd: "k * d + d \<le> d * n"
  proof -
    have "Suc k * d \<le> n * d" using k by (intro mult_le_mono1) simp
    then show ?thesis by (simp add: mult.commute)
  qed
  have nth_w: "?w ! i = (if i < k * d then v ! i else if i < k * d + d then f ! (i - k * d) else v ! i)"
    if "i < d * n" for i
  proof -
    have l1: "length (take (k * d) v) = k * d" using kd len by simp
    show ?thesis
    proof (cases "i < k * d")
      case True
      then show ?thesis using l1 by (simp add: nth_append)
    next
      case False
      show ?thesis
      proof (cases "i < k * d + d")
        case True
        then have "i - k * d < length f" using False f by simp
        then show ?thesis using True False l1 by (simp add: nth_append)
      next
        case False2: False
        have "\<not> i - k * d < length f" using False2 f by simp
        then have "?w ! i = drop (k * d + d) v ! (i - k * d - d)"
          using False l1 f by (simp add: nth_append)
        also have "\<dots> = v ! i" using False2 that len by simp
        finally show ?thesis using False False2 by simp
      qed
    qed
  qed
  show ?thesis
  proof (rule nth_equalityI)
    show "length (slot d ?w j) = length (if j = k then f else slot d v j)"
      using slot_length[OF lw j] slot_length[OF len j] f by simp
  next
    fix t assume "t < length (slot d ?w j)"
    then have t: "t < d" using slot_length[OF lw j] by simp
    have i: "j * d + t < d * n" by (rule slot_bounds[OF j t])
    have "slot d ?w j ! t = ?w ! (j * d + t)" by (rule slot_nth[OF lw j t])
    also have "\<dots> = (if j = k then f else slot d v j) ! t"
    proof (cases "j = k")
      case True
      then show ?thesis using nth_w[OF i] t by simp
    next
      case False
      show ?thesis
      proof (cases "j < k")
        case True
        then have "Suc j * d \<le> k * d" by (intro mult_le_mono1) simp
        then have "j * d + t < k * d" using t by simp
        then show ?thesis using nth_w[OF i] False slot_nth[OF len j t] by simp
      next
        case False3: False
        then have "Suc k * d \<le> j * d" using False by (intro mult_le_mono1) simp
        then have "\<not> j * d + t < k * d + d" by simp
        moreover from this have "\<not> j * d + t < k * d" by simp
        ultimately show ?thesis using nth_w[OF i] False slot_nth[OF len j t] by simp
      qed
    qed
    finally show "slot d ?w j ! t = (if j = k then f else slot d v j) ! t" .
  qed
qed

text \<open>The names of a force mapping are nodes of the solver, with vectors of \<open>d\<close> entries.\<close>

lemma set_forces_loop_ok:
  assumes len: "length fs = d * n"
    and known: "\<forall>(nm, f)\<in>set fmap. length f = d \<and> (\<exists>k<n. idx nm = Some k)"
    and inj: "\<forall>a b k. idx a = Some k \<longrightarrow> idx b = Some k \<longrightarrow> a = b"
    and dist: "distinct (map fst fmap)"
  shows "\<exists>fs'. set_forces_loop d idx fs fmap = (fs', None) \<and> length fs' = d * n
          \<and> (\<forall>(nm, f)\<in>set fmap. \<exists>k<n. idx nm = Some k \<and> slot d fs' k = f)
          \<and> (\<forall>j<n. (\<forall>(nm, f)\<in>set fmap. idx nm \<noteq> Some j) \<longrightarrow> slot d fs' j = slot d fs j)"
  using len known dist
proof (induction fmap arbitrary: fs)
  case Nil
  then show ?case by simp
next
  case (Cons e fmap)
  obtain nm f where e: "e = (nm, f)" by (cases e)
  obtain k where k: "k < n" "idx nm = Some k" and f: "length f = d"
    using Cons.prems(2) e by auto
  let ?fs1 = "take (k * d) fs @ f @ drop (k * d + d) fs"
  have step: "slice_assign fs (k * d) d f = Inr ?fs1"
    by (rule slice_assign_ok[OF Cons.prems(1) k(1) f])
  have l1: "length ?fs1 = d * n" by (rule assigned_length[OF Cons.prems(1) k(1) f])
  have "\<exists>fs'. set_forces_loop d idx ?fs1 fmap = (fs', None) \<and> length fs' = d * n
          \<and> (\<forall>(nm, f)\<in>set fmap. \<exists>k<n. idx nm = Some k \<and> slot d fs' k = f)
          \<and> (\<forall>j<n. (\<forall>(nm, f)\<in>set fmap. idx nm \<noteq> Some j) \<longrightarrow> slot d fs' j = slot d ?fs1 j)"
    using Cons.prems(2,3) l1 by (intro Cons.IH) auto
  then obtain fs' where fs': "set_forces_loop d idx ?fs1 fmap = (fs', None)" "length fs' = d * n"
      "\<forall>(nm, f)\<in>set fmap. \<exists>k<n. idx nm = Some k \<and> slot d fs' k = f"
      "\<forall>j<n. (\<forall>(nm, f)\<in>set fmap. idx nm \<noteq> Some j) \<longrightarrow> slot d fs' j = slot d ?fs1 j"
    by blast
  have run: "set_forces_loop d idx fs (e # fmap) = (fs', None)"
    using e f k(2) step fs'(1) by simp
  have fresh: "\<forall>(nm', f')\<in>set fmap. idx nm' \<noteq> Some k"
  proof (clarify)
    fix nm' f' assume in': "(nm', f') \<in> set fmap" and "idx nm' = Some k"
    then have "nm' = nm" using inj k(2) by blast
    then show False using in' Cons.prems(3) e by (force simp: image_iff)
  qed
  have head: "slot d fs' k = f"
    using fs'(4) fresh k(1) assigned_slot[OF Cons.prems(1) k(1) f k(1)] by simp
  have untouched: "\<forall>j<n. (\<forall>(nm, f)\<in>set (e # fmap). idx nm \<noteq> Some j) \<longrightarrow> slot d fs' j = slot d fs j"
  proof (intro allI impI)
    fix j assume j: "j < n" and none: "\<forall>(nm, f)\<in>set (e # fmap). idx nm \<noteq> Some j"
    then have "j \<noteq> k" using e k(2) by auto
    moreover have "slot d fs' j = slot d ?fs1 j" using fs'(4) j none by simp
    ultimately show "slot d fs' j = slot d fs j"
      using assigned_slot[OF Cons.prems(1) k(1) f j] by simp
  qed
  show ?case
    using run fs'(2,3) head k untouched e by auto
qed

text \<open>
  When the loop ends without an exception, and which exception it ends with when some
  vector has the wrong length. Every index of the table is below \<open>n\<close>.
\<close>

lemma set_forces_loop_success:
  assumes len: "length fs = d * n"
    and bound: "\<forall>a k. idx a = Some k \<longrightarrow> k < n"
  shows "snd (set_forces_loop d idx fs fmap) = None
         \<longleftrightarrow> (\<forall>(nm, f)\<in>set fmap. length f = d \<and> nm \<in> dom idx)"
  using len
proof (induction fmap arbitrary: fs)
  case Nil
  then show ?case by simp
next
  case (Cons e fmap)
  obtain nm f where e: "e = (nm, f)" by (cases e)
  show ?case
  proof (cases "length f = d")
    case False
    then show ?thesis using e by simp
  next
    case True
    show ?thesis
    proof (cases "idx nm")
      case None
      then show ?thesis using e True by (simp add: dom_def)
    next
      case (Some k)
      then have k: "k < n" using bound by blast
      let ?fs1 = "take (k * d) fs @ f @ drop (k * d + d) fs"
      have step: "slice_assign fs (k * d) d f = Inr ?fs1"
        by (rule slice_assign_ok[OF Cons.prems k True])
      have l1: "length ?fs1 = d * n" by (rule assigned_length[OF Cons.prems k True])
      show ?thesis using Cons.IH[OF l1] e True Some step by (simp add: dom_def)
    qed
  qed
qed

lemma set_forces_loop_error:
  assumes len: "length fs = d * n"
    and bound: "\<forall>a k. idx a = Some k \<longrightarrow> k < n"
    and bad: "\<exists>(nm, f)\<in>set fmap. length f \<noteq> d"
  shows "snd (set_forces_loop d idx fs fmap) =
           (if \<forall>(nm, f)\<in>set (takeWhile (\<lambda>(nm, f). length f = d) fmap). nm \<in> dom idx
            then Some ValueError else Some KeyError)"
  using len bad
proof (induction fmap arbitrary: fs)
  case Nil
  then show ?case by simp
next
  case (Cons e fmap)
  obtain nm f where e: "e = (nm, f)" by (cases e)
  show ?case
  proof (cases "length f = d")
    case False
    then show ?thesis using e by simp
  next
    case True
    then have bad': "\<exists>(nm, f)\<in>set fmap. length f \<noteq> d" using Cons.prems(2) e by simp
    show ?thesis
    proof (cases "idx nm")
      case None
      then show ?thesis using e True by (simp add: dom_def)
    next
      case (Some k)
      then have k: "k < n" using bound by blast
      let ?fs1 = "take (k * d) fs @ f @ drop (k * d + d) fs"
      have step: "slice_assign fs (k * d) d f = Inr ?fs1"
        by (rule slice_assign_ok[OF Cons.prems(1) k True])
      have l1: "length ?fs1 = d * n" by (rule assigned_length[OF Cons.prems(1) k True])
      show ?thesis using Cons.IH[OF l1 bad'] e True Some step by (simp add: dom_def)
    qed
  qed
qed

lemma set_forces_loop_append:
  assumes "set_forces_loop d idx fs pre = (fs', None)"
  shows "set_forces_loop d idx fs (pre @ rest) = set_forces_loop d idx fs' rest"
  using assms
proof (induction pre arbitrary: fs)
  case Nil
  then show ?case by simp
next
  case (Cons e pre)
  obtain nm f where e: "e = (nm, f)" by (cases e)
  show ?case
    using Cons.prems Cons.IH e
    by (auto split: if_splits option.splits sum.splits)
qed

text \<open>
  C9, as the code has it. Let the solver's \<open>node_indices\<close> be the table its constructor
  builds, and let the mapping be a dict (distinct keys). \<open>set_forces\<close> raises nothing
  exactly when every key is the name of a node and every vector has \<open>sdim\<close> entries. After
  such a call the stored vector has \<open>sdim\<close> entries per node, the slots of every named
  node hold the supplied vector and the slots of every node whose name is not in the
  mapping are zero. If some vector has another length, the call raises: ValueError when
  every entry before the first such vector names a node, and KeyError when one of them
  does not. The result does not depend on the forces held before the call.
\<close>

theorem set_forces_replaces:
  assumes built: "node_indices s = build_node_indices (nodes (tensegrity s))"
    and keys: "distinct (map fst fmap)"
  shows "(snd (set_forces s fmap) = None \<longleftrightarrow>
            (\<forall>(nm, f)\<in>set fmap. length f = sdim s \<and> nm \<in> dom (node_indices s)))
       \<and> (snd (set_forces s fmap) = None \<longrightarrow>
            (\<exists>fs. set_forces s fmap = (s\<lparr>forces := fs\<rparr>, None)
               \<and> length fs = sdim s * length (nodes (tensegrity s))
               \<and> (\<forall>(nm, f)\<in>set fmap. \<exists>k. node_indices s nm = Some k \<and> slot (sdim s) fs k = f)
               \<and> (\<forall>j<length (nodes (tensegrity s)).
                     name (nodes (tensegrity s) ! j) \<notin> fst ` set fmap \<longrightarrow>
                     slot (sdim s) fs j = replicate (sdim s) 0)))
       \<and> ((\<exists>(nm, f)\<in>set fmap. length f \<noteq> sdim s) \<longrightarrow>
            snd (set_forces s fmap) =
              (if \<forall>(nm, f)\<in>set (takeWhile (\<lambda>(nm, f). length f = sdim s) fmap).
                    nm \<in> dom (node_indices s)
               then Some ValueError else Some KeyError))
       \<and> set_forces (s\<lparr>forces := old\<rparr>) fmap = set_forces s fmap"
proof -
  let ?n = "length (nodes (tensegrity s))"
  let ?d = "sdim s"
  let ?z = "replicate (?d * ?n) (0::real)"
  have lz: "length ?z = ?d * ?n" by simp
  have idx: "node_indices s a = Some k \<Longrightarrow> k < ?n \<and> name (nodes (tensegrity s) ! k) = a" for a k
    using build_node_indices_Some[of "nodes (tensegrity s)" a k] built by simp
  have inj: "\<forall>a b k. node_indices s a = Some k \<longrightarrow> node_indices s b = Some k \<longrightarrow> a = b"
    using idx by blast
  have bound: "\<forall>a k. node_indices s a = Some k \<longrightarrow> k < ?n"
    using idx by blast
  have run: "snd (set_forces s fmap) = snd (set_forces_loop ?d (node_indices s) ?z fmap)"
    by (simp add: set_forces_def split: prod.splits)
  have succ: "snd (set_forces s fmap) = None \<longleftrightarrow>
            (\<forall>(nm, f)\<in>set fmap. length f = ?d \<and> nm \<in> dom (node_indices s))"
    unfolding run by (rule set_forces_loop_success[OF lz bound])
  have part1: "\<exists>fs. set_forces s fmap = (s\<lparr>forces := fs\<rparr>, None) \<and> length fs = ?d * ?n
               \<and> (\<forall>(nm, f)\<in>set fmap. \<exists>k. node_indices s nm = Some k \<and> slot ?d fs k = f)
               \<and> (\<forall>j<?n. name (nodes (tensegrity s) ! j) \<notin> fst ` set fmap \<longrightarrow>
                     slot ?d fs j = replicate ?d 0)"
    if ok: "snd (set_forces s fmap) = None"
  proof -
    have k2: "\<forall>(nm, f)\<in>set fmap. length f = ?d \<and> (\<exists>k<?n. node_indices s nm = Some k)"
      using ok succ idx by fastforce
    obtain fs' where fs': "set_forces_loop ?d (node_indices s) ?z fmap = (fs', None)"
        "length fs' = ?d * ?n"
        "\<forall>(nm, f)\<in>set fmap. \<exists>k<?n. node_indices s nm = Some k \<and> slot ?d fs' k = f"
        "\<forall>j<?n. (\<forall>(nm, f)\<in>set fmap. node_indices s nm \<noteq> Some j) \<longrightarrow> slot ?d fs' j = slot ?d ?z j"
      using set_forces_loop_ok[OF lz k2 inj keys] by blast
    have zero: "slot ?d fs' j = replicate ?d 0"
      if j: "j < ?n" and un: "name (nodes (tensegrity s) ! j) \<notin> fst ` set fmap" for j
    proof -
      have "\<forall>(nm, f)\<in>set fmap. node_indices s nm \<noteq> Some j"
      proof clarify
        fix nm f assume "(nm, f) \<in> set fmap" "node_indices s nm = Some j"
        then show False using idx[of nm j] un by (force simp: image_iff)
      qed
      then have "slot ?d fs' j = slot ?d ?z j" using fs'(4) j by simp
      also have "\<dots> = replicate ?d 0"
      proof -
        have "Suc j * ?d \<le> ?n * ?d" using j by (intro mult_le_mono1) simp
        then show ?thesis by (simp add: slot_def mult.commute min_def)
      qed
      finally show ?thesis .
    qed
    have a: "set_forces s fmap = (s\<lparr>forces := fs'\<rparr>, None)"
      using fs'(1) by (simp add: set_forces_def)
    have b: "\<forall>(nm, f)\<in>set fmap. \<exists>k. node_indices s nm = Some k \<and> slot ?d fs' k = f"
      using fs'(3) by fastforce
    show ?thesis
      using a fs'(2) b zero by blast
  qed
  have part2: "snd (set_forces s fmap) =
              (if \<forall>(nm, f)\<in>set (takeWhile (\<lambda>(nm, f). length f = ?d) fmap).
                    nm \<in> dom (node_indices s)
               then Some ValueError else Some KeyError)"
    if bad: "\<exists>(nm, f)\<in>set fmap. length f \<noteq> ?d"
    unfolding run by (rule set_forces_loop_error[OF lz bound bad])
  have part3: "set_forces (s\<lparr>forces := old\<rparr>) fmap = set_forces s fmap"
    by (simp add: set_forces_def split: prod.splits)
  show ?thesis
  proof (intro conjI impI)
    show "snd (set_forces s fmap) = None \<longleftrightarrow>
            (\<forall>(nm, f)\<in>set fmap. length f = ?d \<and> nm \<in> dom (node_indices s))" by (rule succ)
  qed (use part1 part2 part3 in blast)+
qed

text \<open>
  C10. When the entries before an entry with a vector of the wrong length have been
  processed, \<open>set_forces\<close> raises ValueError and the solver is left with the zero vector
  into which those earlier entries were written: the forces held before the call are
  gone, and the entries after the offending one are not stored.
\<close>

theorem set_forces_not_atomic:
  assumes "set_forces_loop (sdim s) (node_indices s)
             (replicate (sdim s * length (nodes (tensegrity s))) 0) pre = (fs, None)"
    and "length f \<noteq> sdim s"
  shows "set_forces s (pre @ (nm, f) # post) = (s\<lparr>forces := fs\<rparr>, Some ValueError)"
  using set_forces_loop_append[OF assms(1), of "(nm, f) # post"] assms(2)
  by (simp add: set_forces_def)

text \<open>The loaded solver over the square.\<close>

lemma ex_node_indices:
  "node_indices ex_loaded_solver = build_node_indices (nodes (tensegrity ex_loaded_solver))"
  by (simp add: ex_loaded_solver_def TensegritySolver_init_def Let_def)

lemma ex_nodes_facts:
  "length ex_nodes = 4" "name (ex_nodes ! 0) = ''A''" "name (ex_nodes ! 1) = ''B''"
  "name (ex_nodes ! 2) = ''C''" "name (ex_nodes ! 3) = ''D''"
  by (simp_all add: ex_nodes_def)

lemma ex_node_indices_values:
  "build_node_indices ex_nodes ''A'' = Some 0"
  "build_node_indices ex_nodes ''B'' = Some 1"
  "build_node_indices ex_nodes ''C'' = Some 2"
  "build_node_indices ex_nodes ''D'' = Some 3"
  by (simp_all add: build_node_indices_def ex_nodes_def upt_rec)

lemma ex_loaded_fields:
  "sdim ex_loaded_solver = 2" "nodes (tensegrity ex_loaded_solver) = ex_nodes"
  "node_indices ex_loaded_solver = build_node_indices ex_nodes"
  "forces ex_loaded_solver = [5, 5, 7, 7, 0, 0, 0, 0]"
  by (simp_all add: ex_loaded_solver_def TensegritySolver_init_def ex_tensegrity_def Let_def)

theorem set_forces_replaces_witness:
  "(\<exists>fs. set_forces ex_loaded_solver [(''B'', [1, 2]), (''D'', [3, 4])]
            = (ex_loaded_solver\<lparr>forces := fs\<rparr>, None)
        \<and> length fs = 8 \<and> slot 2 fs 1 = [1, 2] \<and> slot 2 fs 3 = [3, 4]
        \<and> slot 2 fs 0 = [0, 0] \<and> slot 2 fs 2 = [0, 0])
   \<and> snd (set_forces ex_loaded_solver [(''B'', [1, 2]), (''D'', [3])]) = Some ValueError
   \<and> snd (set_forces ex_loaded_solver [(''Z'', [1, 2]), (''D'', [3])]) = Some KeyError"
proof -
  have keys: "distinct (map fst [(''B'', [1, 2]), (''D'', [3, 4::real])])"
    "distinct (map fst [(''B'', [1, 2]), (''D'', [3::real])])"
    "distinct (map fst [(''Z'', [1, 2]), (''D'', [3::real])])" by simp_all
  have Z: "build_node_indices ex_nodes ''Z'' = None"
    by (simp add: build_node_indices_def ex_nodes_def upt_rec)
  note t1 = set_forces_replaces[OF ex_node_indices keys(1)]
  have ok: "snd (set_forces ex_loaded_solver [(''B'', [1, 2]), (''D'', [3, 4])]) = None"
    using t1 by (simp add: ex_loaded_fields ex_node_indices_values dom_def)
  from t1 ok
  obtain fs where fs: "set_forces ex_loaded_solver [(''B'', [1, 2]), (''D'', [3, 4])]
            = (ex_loaded_solver\<lparr>forces := fs\<rparr>, None)" "length fs = 8"
      "slot 2 fs 1 = [1, 2]" "slot 2 fs 3 = [3, 4]"
      "\<forall>j<4. name (ex_nodes ! j) \<notin> {''B'', ''D''} \<longrightarrow> slot 2 fs j = replicate 2 0"
    by (auto simp: ex_loaded_fields ex_node_indices_values ex_nodes_facts)
  have r2: "replicate 2 (0::real) = [0, 0]" by (simp add: numeral_2_eq_2)
  have "slot 2 fs 0 = [0, 0]" "slot 2 fs 2 = [0, 0]"
    using fs(5)[rule_format, of 0] fs(5)[rule_format, of 2]
    by (simp_all add: ex_nodes_facts r2)
  moreover have "snd (set_forces ex_loaded_solver [(''B'', [1, 2]), (''D'', [3])]) = Some ValueError"
    using set_forces_replaces[OF ex_node_indices keys(2)]
    by (simp add: ex_loaded_fields ex_node_indices_values dom_def)
  moreover have "snd (set_forces ex_loaded_solver [(''Z'', [1, 2]), (''D'', [3])]) = Some KeyError"
    using set_forces_replaces[OF ex_node_indices keys(3)]
    by (simp add: ex_loaded_fields ex_node_indices_values Z dom_def)
  ultimately show ?thesis using fs(1-4) by blast
qed

text \<open>
  On the square, the mapping \<open>{'Z': [3, 4], 'A': [1]}\<close> holds a vector of the wrong length,
  for A; the call raises KeyError, for Z, before it looks at it.
\<close>

theorem set_forces_counterexample:
  "length [1::real] \<noteq> sdim ex_loaded_solver
   \<and> snd (set_forces ex_loaded_solver [(''Z'', [3, 4]), (''A'', [1])]) = Some KeyError"
proof -
  have Z: "build_node_indices ex_nodes ''Z'' = None"
    by (simp add: build_node_indices_def ex_nodes_def upt_rec)
  show ?thesis
    by (simp add: set_forces_def ex_loaded_fields Z)
qed

theorem set_forces_not_atomic_witness:
  "forces ex_loaded_solver = [5, 5, 7, 7, 0, 0, 0, 0]
   \<and> set_forces ex_loaded_solver [(''A'', [1, 2]), (''B'', [1]), (''C'', [3, 4])]
       = (ex_loaded_solver\<lparr>forces := [1, 2, 0, 0, 0, 0, 0, 0]\<rparr>, Some ValueError)"
proof -
  have pre: "set_forces_loop (sdim ex_loaded_solver) (node_indices ex_loaded_solver)
       (replicate (sdim ex_loaded_solver * length (nodes (tensegrity ex_loaded_solver))) 0)
       [(''A'', [1, 2])] = ([1, 2, 0, 0, 0, 0, 0, 0], None)"
    by (simp add: ex_loaded_fields ex_node_indices_values slice_assign_def ex_nodes_facts
        eval_nat_numeral)
  have bad: "length [1::real] \<noteq> sdim ex_loaded_solver" by (simp add: ex_loaded_fields)
  show ?thesis
    using set_forces_not_atomic[OF pre bad, of "''B''" "[(''C'', [3, 4])]"]
    by (simp add: ex_loaded_fields)
qed

section \<open>The length derivative\<close>


















section \<open>The residual\<close>

lemma iadd_length: "iadd a b = Inr c \<Longrightarrow> length c = length a"
  by (auto simp: iadd_def split: if_splits)

lemma virtual_work_loop_length:
  "virtual_work_loop s cs N vw = Inr vw' \<Longrightarrow> length vw' = length vw"
proof (induction cs arbitrary: vw)
  case Nil
  then show ?case by simp
next
  case (Cons c cs)
  then show ?case
    by (auto split: sum.splits dest: iadd_length)
qed

lemma couple_result:
  assumes "couple vw a b D = Inr (vw', D')"
  shows "length vw' = length vw \<and> D' = insert (removed_row D a b) D"
  using assms by (auto simp: couple_def removed_row_def split: if_splits)

lemma card_insert_removed:
  assumes "finite D"
  shows "card (insert (removed_row D a b) D) + (if a \<in> D \<and> b \<in> D then 1 else 0) = card D + 1"
  using assms by (auto simp: removed_row_def card_insert_if)

lemma link_loop_card:
  assumes "link_loop s linked vw D = Inr (vw', D')" "finite D"
  shows "length vw' = length vw \<and> finite D'
       \<and> card D' + surplus (sdim s) (node_indices s) linked D = card D + 2 * length linked"
  using assms
proof (induction linked arbitrary: vw D)
  case Nil
  then show ?case by simp
next
  case (Cons p linked)
  obtain node1 node2 where p: "p = (node1, node2)" by (cases p)
  from Cons.prems(1) p obtain i1 i2 vw1 D1 vw2 D2 where
    i: "node_indices s node1 = Some i1" "node_indices s node2 = Some i2"
    and c1: "couple vw (i1 * sdim s) (i2 * sdim s) D = Inr (vw1, D1)"
    and c2: "couple vw1 (i1 * sdim s + 1) (i2 * sdim s + 1) D1 = Inr (vw2, D2)"
    and rest: "link_loop s linked vw2 D2 = Inr (vw', D')"
    by (auto split: if_splits option.splits sum.splits prod.splits)
  let ?a = "i1 * sdim s" and ?b = "i2 * sdim s"
  have r1: "length vw1 = length vw" "D1 = insert (removed_row D ?a ?b) D"
    using couple_result[OF c1] by simp_all
  have r2: "length vw2 = length vw1" "D2 = insert (removed_row D1 (?a + 1) (?b + 1)) D1"
    using couple_result[OF c2] by simp_all
  have f1: "finite D1" using r1(2) Cons.prems(2) by simp
  have f2: "finite D2" using r2(2) f1 by simp
  have IH: "length vw' = length vw2" "finite D'"
    "card D' + surplus (sdim s) (node_indices s) linked D2 = card D2 + 2 * length linked"
    using Cons.IH[OF rest f2] by simp_all
  have k1: "card D1 + (if ?a \<in> D \<and> ?b \<in> D then 1 else 0) = card D + 1"
    unfolding r1(2) by (rule card_insert_removed[OF Cons.prems(2)])
  have k2: "card D2 + (if ?a + 1 \<in> D1 \<and> ?b + 1 \<in> D1 then 1 else 0) = card D1 + 1"
    unfolding r2(2) by (rule card_insert_removed[OF f1])
  have s: "surplus (sdim s) (node_indices s) (p # linked) D =
      (if ?a \<in> D \<and> ?b \<in> D then 1 else 0) + (if ?a + 1 \<in> D1 \<and> ?b + 1 \<in> D1 then 1 else 0)
      + surplus (sdim s) (node_indices s) linked D2"
    using p i r1(2) r2(2) by (simp add: Let_def)
  show ?case
    using IH k1 k2 r1(1) r2(1) unfolding s by simp
qed

lemma enumerate_filter_length:
  assumes "\<forall>i\<in>D. i < length arr" "finite D"
  shows "length (filter (\<lambda>(i, v). i \<notin> D) (enumerate 0 arr)) + card D = length arr"
proof -
  have "{i. i < length (enumerate 0 arr) \<and> (case enumerate 0 arr ! i of (i, v) \<Rightarrow> i \<notin> D)}
        = {i. i < length arr \<and> i \<notin> D}"
    by (auto simp: nth_enumerate_eq)
  then have "length (filter (\<lambda>(i, v). i \<notin> D) (enumerate 0 arr))
        = card {i. i < length arr \<and> i \<notin> D}"
    by (simp add: length_filter_conv_card)
  also have "{i. i < length arr \<and> i \<notin> D} = {..<length arr} - D" by auto
  also have "card ({..<length arr} - D) = length arr - card D"
    using assms by (subst card_Diff_subset) auto
  finally have "length (filter (\<lambda>(i, v). i \<notin> D) (enumerate 0 arr)) = length arr - card D" .
  moreover have "card D \<le> length arr"
    using assms card_mono[of "{..<length arr}" D] by auto
  ultimately show ?thesis by simp
qed

lemma np_delete_length:
  assumes "np_delete arr D = Inr arr'" "finite D"
  shows "length arr' + card D = length arr"
proof -
  have b: "\<forall>i\<in>D. i < length arr" using assms(1) by (auto simp: np_delete_def split: if_splits)
  then have "arr' = map snd (filter (\<lambda>(i, v). i \<notin> D) (enumerate 0 arr))"
    using assms(1) by (simp add: np_delete_def)
  then show ?thesis using enumerate_filter_length[OF b assms(2)] by simp
qed

lemma constraints_loop_length:
  "constraints_loop s r linked N = Inr cons \<Longrightarrow> length cons = 2 * length linked"
proof (induction linked arbitrary: cons)
  case Nil
  then show ?case by simp
next
  case (Cons p linked)
  obtain node1 node2 where p: "p = (node1, node2)" by (cases p)
  from Cons.prems p obtain cs where "constraints_loop s r linked N = Inr cs"
    "cons = (hd cons) # (hd (tl cons)) # cs"
    by (auto split: if_splits option.splits sum.splits)
  then show ?case using Cons.IH[of cs] by (metis length_Cons mult_Suc_right add_2_eq_Suc)
qed

lemma objective_length_rows:
  assumes surf: "surface (tensegrity s) = Some sf" and cyl: "surface_type sf = ''cylinder''"
    and ok: "objective s x = Inr r"
  shows "length r + card (pinned_rows s)
         = sdim s * length (nodes (tensegrity s))
           + surplus (sdim s) (node_indices s) (linked_nodes sf) (pinned_rows s)"
proof -
  let ?z = "replicate (sdim s * length (nodes (tensegrity s))) (0::real)"
  from ok surf obtain N vw0 vw1 del vw2 D vw3 cons where
    vw0: "virtual_work_loop s (connections (tensegrity s)) N ?z = Inr vw0"
    and vw1: "iadd vw0 (forces s) = Inr vw1"
    and del: "pinned_indices (node_indices s) (sdim s) (pins (tensegrity s)) = Inr del"
    and link: "link_loop s (linked_nodes sf) vw1 (set del) = Inr (vw2, D)"
    and vw3: "np_delete vw2 D = Inr vw3"
    and cons: "surface_constraints s x = Inr cons"
    and r: "r = vw3 @ cons"
    by (auto simp: objective_def split: sum.splits prod.splits)
  have rows: "pinned_rows s = set del" using del by (simp add: pinned_rows_def)
  have l1: "length vw1 = sdim s * length (nodes (tensegrity s))"
    using virtual_work_loop_length[OF vw0] iadd_length[OF vw1] by simp
  have lk: "length vw2 = length vw1" "finite D"
    "card D + surplus (sdim s) (node_indices s) (linked_nodes sf) (set del)
       = card (set del) + 2 * length (linked_nodes sf)"
    using link_loop_card[OF link] by simp_all
  have l3: "length vw3 + card D = length vw2" by (rule np_delete_length[OF vw3 lk(2)])
  have "\<exists>N'. constraints_loop s (radius sf) (linked_nodes sf) N' = Inr cons"
    using cons surf cyl by (auto simp: surface_constraints_def split: sum.splits)
  then have lc: "length cons = 2 * length (linked_nodes sf)"
    using constraints_loop_length by blast
  show ?thesis using l1 lk(1,3) l3 lc r rows by simp
qed

lemma pinned_axes_result:
  assumes "pinned_axes idx d node bools axes = Inr r"
  shows "r = map (\<lambda>i. the (idx node) * d + i) (filter (\<lambda>i. bools ! i) axes)
       \<and> (filter (\<lambda>i. bools ! i) axes \<noteq> [] \<longrightarrow> node \<in> dom idx)"
  using assms
proof (induction axes arbitrary: r)
  case Nil
  then show ?case by simp
next
  case (Cons i axes)
  then show ?case
    by (auto split: if_splits option.splits sum.splits)
qed

text \<open>The rows one pin entry contributes.\<close>

lemma pinned_indices_result:
  assumes "pinned_indices idx d ps = Inr del"
  shows "del = concat (map (\<lambda>(nm, bools). map (\<lambda>i. the (idx nm) * d + i)
                                              (filter (\<lambda>i. bools ! i) [0..<d])) ps)
       \<and> (\<forall>(nm, bools)\<in>set ps. filter (\<lambda>i. bools ! i) [0..<d] \<noteq> [] \<longrightarrow> nm \<in> dom idx)"
  using assms
proof (induction ps arbitrary: del)
  case Nil
  then show ?case by simp
next
  case (Cons p ps)
  obtain nm bools where p: "p = (nm, bools)" by (cases p)
  from Cons.prems p obtain r r' where
    r: "pinned_axes idx d nm bools [0..<d] = Inr r" and r': "pinned_indices idx d ps = Inr r'"
    and del: "del = r @ r'"
    by (auto split: sum.splits)
  show ?case
    using pinned_axes_result[OF r] Cons.IH[OF r'] del p by simp
qed

lemma pinned_rows_distinct:
  assumes inj: "\<forall>a b k. idx a = Some k \<longrightarrow> idx b = Some k \<longrightarrow> a = b"
    and keys: "distinct (map fst ps)"
    and known: "\<forall>(nm, bools)\<in>set ps. filter (\<lambda>i. bools ! i) [0..<d] \<noteq> [] \<longrightarrow> nm \<in> dom idx"
  shows "distinct (concat (map (\<lambda>(nm, bools). map (\<lambda>i. the (idx nm) * d + i)
                                              (filter (\<lambda>i. bools ! i) [0..<d])) ps))"
  using keys known
proof (induction ps)
  case Nil
  then show ?case by simp
next
  case (Cons p ps)
  obtain nm bools where p: "p = (nm, bools)" by (cases p)
  let ?rows = "\<lambda>(nm, bools). map (\<lambda>i. the (idx nm) * d + i) (filter (\<lambda>i. bools ! i) [0..<d])"
  have IH: "distinct (concat (map ?rows ps))" using Cons by simp
  have own: "distinct (?rows p)"
    using p by (simp add: distinct_map inj_on_def)
  have disj: "set (?rows p) \<inter> set (concat (map ?rows ps)) = {}"
  proof (rule ccontr)
    assume "set (?rows p) \<inter> set (concat (map ?rows ps)) \<noteq> {}"
    then obtain e where e1: "e \<in> set (?rows p)" and e2: "e \<in> set (concat (map ?rows ps))"
      by blast
    from e1 p obtain i where i: "i < d" "bools ! i" "e = the (idx nm) * d + i" by auto
    from e2 obtain nm' bools' i' where q: "(nm', bools') \<in> set ps"
      and i': "i' < d" "bools' ! i'" "e = the (idx nm') * d + i'" by auto
    have "filter (\<lambda>i. bools ! i) [0..<d] \<noteq> []" using i by (auto simp: filter_empty_conv)
    then obtain k where k: "idx nm = Some k" using Cons.prems(2) p by auto
    have "filter (\<lambda>i. bools' ! i) [0..<d] \<noteq> []" using i' by (auto simp: filter_empty_conv)
    then obtain k' where k': "idx nm' = Some k'" using Cons.prems(2) q by auto
    have "k * d + i = k' * d + i'" using i(3) i'(3) k k' by simp
    then have "(k * d + i) div d = (k' * d + i') div d" by simp
    then have "k = k'" using i(1) i'(1) by simp
    then have "nm = nm'" using inj k k' by blast
    then show False using q Cons.prems(1) p by (force simp: image_iff)
  qed
  show ?case using own IH disj by simp
qed

lemma pinned_rows_card:
  assumes built: "node_indices s = build_node_indices (nodes (tensegrity s))"
    and keys: "distinct (map fst (pins (tensegrity s)))"
    and del: "pinned_indices (node_indices s) (sdim s) (pins (tensegrity s)) = Inr del"
  shows "card (pinned_rows s) = pinned_axes_count s"
proof -
  let ?rows = "\<lambda>(nm, bools). map (\<lambda>i. the (node_indices s nm) * sdim s + i)
                                  (filter (\<lambda>i. bools ! i) [0..<sdim s])"
  have inj: "\<forall>a b k. node_indices s a = Some k \<longrightarrow> node_indices s b = Some k \<longrightarrow> a = b"
    using build_node_indices_Some[of "nodes (tensegrity s)"] built by metis
  note res = pinned_indices_result[OF del]
  have d: "distinct del"
    using pinned_rows_distinct[OF inj keys] res by simp
  have "length del = pinned_axes_count s"
    using res by (simp add: pinned_axes_count_def length_concat comp_def case_prod_unfold)
  then show ?thesis using d del by (simp add: pinned_rows_def distinct_card)
qed

text \<open>
  The exact count. For a structure with a cylinder surface and any \<open>x\<close> on which
  \<open>_objective\<close> returns, the length of the residual is \<open>sdim\<close> times the number of nodes,
  minus the number of pinned coordinate axes, plus the number of steps at which the rows of
  both nodes of a linked pair were gone already.
\<close>

lemma objective_length_exact:
  assumes built: "node_indices s = build_node_indices (nodes (tensegrity s))"
    and keys: "distinct (map fst (pins (tensegrity s)))"
    and surf: "surface (tensegrity s) = Some sf" and cyl: "surface_type sf = ''cylinder''"
    and ok: "objective s x = Inr r"
  shows "length r + pinned_axes_count s
         = sdim s * length (nodes (tensegrity s))
           + surplus (sdim s) (node_indices s) (linked_nodes sf) (pinned_rows s)"
proof -
  obtain del where del: "pinned_indices (node_indices s) (sdim s) (pins (tensegrity s)) = Inr del"
    using ok by (auto simp: objective_def split: sum.splits)
  show ?thesis
    using objective_length_rows[OF surf cyl ok] pinned_rows_card[OF built keys del] by simp
qed


































text \<open>The first seam structure is what the constructor returns.\<close>

lemma ex_seam_tensegrity_init:
  "Tensegrity_init ex_seam_nodes [ex_seam_string\<lparr>force := None\<rparr>] (Some [(''A'', [True, False])]) None
     (Some \<lparr>surface_type = ''cylinder'', radius = 1, linked_nodes = [(''A'', ''B'')]\<rparr>) None
   = Inr ex_seam_tensegrity"
  by (simp add: Tensegrity_init_def update_forces_def current_length_def deref_def ex_seam_nodes_def
      ex_seam_string_def ex_seam_tensegrity_def in_linked_def vsub_def linalg_norm_def
      update_force_def infer_dim_def Let_def)

section \<open>Initial guess and expansion\<close>

text \<open>
  C3. \<open>_get_nodes_from_input\<close> inserts the pinned values in the order of the pins dict,
  each at its index in the full vector. That index is right only once every pinned entry
  below it is back in place. With the pins listed B before A, both pinned in x, the
  initial guess of the positions \<open>[0, 0, 1, 2]\<close> is \<open>[0, 2]\<close>, and its expansion is
  \<open>[0, 0, 2, 1]\<close>: the coordinates of B are swapped. With B pinned in y and A in both
  axes the expansion of the initial guess \<open>[1]\<close> raises IndexError.
\<close>

theorem roundtrip_failing_input:
  "flatten_positions (sdim ex_pin_solver) (nodes (tensegrity ex_pin_solver)) = Inr [0, 0, 1, 2]
   \<and> create_initial_guess ex_pin_solver = Inr [0, 2]
   \<and> get_nodes_from_input ex_pin_solver [0, 2] = Inr [0, 0, 2, 1]
   \<and> create_initial_guess ex_pin_solver2 = Inr [1]
   \<and> get_nodes_from_input ex_pin_solver2 [1] = Inl IndexError"
  by code_simp

end
